theory Spec2Isabelle
  imports Complex_Main "HOL-Library.Word" "HOL-Library.Stream" "HOL-Library.Monad_Syntax"
begin

section \<open>Numbers and vectors\<close>

text \<open>
  The program computes with C++ \<open>float\<close>, \<open>int\<close> and \<open>uint32_t\<close>.
  \<^item> \<open>float\<close> is modelled by the real numbers: arithmetic is exact, and the values
    infinity and NaN do not exist. A float literal such as \<open>0.1f\<close> is the real number it
    denotes in decimal. Division by zero, which yields an infinity or NaN in the program, has
    HOL's value \<open>0\<close>; no statement below depends on such a quotient.
    \<open>Particle::getAge\<close> and \<open>Cactus::grow\<close>, whose statements are about the infinities,
    NaN and the quotient by zero, have a second embedding over a type that holds these values
    (section IEEE values); on finite values the two embeddings agree. Rounding and overflow
    to infinity are outside this development.
  \<^item> \<open>uint32_t\<close> is \<open>32 word\<close>: addition and multiplication wrap around, as in the
    program.
  \<^item> \<open>int\<close> is \<open>int\<close> with the 32-bit range checked where the program multiplies.
  \<^item> \<open>size_t\<close> (container sizes) is \<open>nat\<close>; memory is unbounded.
\<close>

type_synonym float = real
type_synonym uint32 = "32 word"

datatype vec2 = vec2 float float
datatype vec3 = vec3 (vx: float) (vy: float) (vz: float)
datatype vec4 = vec4 float float float float

text \<open>The GLM operators the program uses on vectors, componentwise.\<close>

fun add3 :: "vec3 \<Rightarrow> vec3 \<Rightarrow> vec3" where
  "add3 (vec3 a b c) (vec3 d e f) = vec3 (a + d) (b + e) (c + f)"

fun sub3 :: "vec3 \<Rightarrow> vec3 \<Rightarrow> vec3" where
  "sub3 (vec3 a b c) (vec3 d e f) = vec3 (a - d) (b - e) (c - f)"

fun scale3 :: "vec3 \<Rightarrow> float \<Rightarrow> vec3" where
  "scale3 (vec3 a b c) k = vec3 (a * k) (b * k) (c * k)"

text \<open>\<open>glm::mix(x, y, a)\<close> is \<open>x * (1 - a) + y * a\<close>, on scalars and componentwise on
  vectors; \<open>glm::clamp(x, lo, hi)\<close> is \<open>min(max(x, lo), hi)\<close>.\<close>

definition mix :: "float \<Rightarrow> float \<Rightarrow> float \<Rightarrow> float" where
  "mix x y a = x * (1 - a) + y * a"

fun mix4 :: "vec4 \<Rightarrow> vec4 \<Rightarrow> float \<Rightarrow> vec4" where
  "mix4 (vec4 a b c d) (vec4 e f g h) t = vec4 (mix a e t) (mix b f t) (mix c g t) (mix d h t)"

definition clamp :: "float \<Rightarrow> float \<Rightarrow> float \<Rightarrow> float" where
  "clamp x lo hi = min (max x lo) hi"

section \<open>Particle (Particle.h)\<close>

text \<open>Fields that several structs share carry the struct's initial: \<open>p_\<close> for Particle,
  \<open>pv_\<close> for ParticleVertex, \<open>v_\<close> for Vertex, \<open>c_\<close> for Cactus::Config.\<close>

record Particle =
  p_position :: vec3
  p_velocity :: vec3
  p_color :: vec4
  life :: float
  maxLife :: float
  p_size :: float

definition isAlive :: "Particle \<Rightarrow> bool" where
  "isAlive p = (life p > 0)"

definition getAge :: "Particle \<Rightarrow> float" where
  "getAge p = (if maxLife p > 0 then 1 - (life p / maxLife p) else 1)"

record ParticleVertex =
  pv_position :: vec3
  pv_color :: vec4
  pv_texCoord :: vec2
  pv_size :: float

section \<open>Cactus state (Cactus.h, Cactus.cpp)\<close>

record Config =
  c_position :: vec3
  height :: float
  trunkRadius :: float
  numArms :: int
  armHeight :: float
  c_color :: vec3
  segments :: uint32

record Cactus =
  m_config :: Config
  m_growthFactor :: float
  m_isBurning :: bool

text \<open>The default member initialisers of \<open>Cactus::Config\<close>.\<close>

definition Config_default :: Config where
  "Config_default =
     \<lparr>c_position = vec3 0 0 0, height = 5, trunkRadius = 5/10, numArms = 2,
      armHeight = 6/10, c_color = vec3 (2/10) (6/10) (2/10), segments = 12\<rparr>"

text \<open>The constructor \<open>Cactus(config)\<close> with the default member initialisers.\<close>

definition Cactus_new :: "Config \<Rightarrow> Cactus" where
  "Cactus_new cfg = \<lparr>m_config = cfg, m_growthFactor = 1, m_isBurning = False\<rparr>"

definition getGrowthFactor :: "Cactus \<Rightarrow> float" where
  "getGrowthFactor c = m_growthFactor c"

definition setGrowthFactor :: "float \<Rightarrow> Cactus \<Rightarrow> Cactus" where
  "setGrowthFactor factor c = c\<lparr>m_growthFactor := factor\<rparr>"

definition setBurning :: "bool \<Rightarrow> Cactus \<Rightarrow> Cactus" where
  "setBurning burning c = c\<lparr>m_isBurning := burning\<rparr>"

definition grow :: "float \<Rightarrow> Cactus \<Rightarrow> Cactus" where
  "grow amount c =
     (let c1 = c\<lparr>m_growthFactor := m_growthFactor c + amount\<rparr>
      in c1\<lparr>m_growthFactor := clamp (m_growthFactor c1) (1/10) 4\<rparr>)"

section \<open>ParticleSystem (ParticleSystem.h)\<close>


record EmitterConfig =
  e_position :: vec3
  positionVariance :: vec3
  e_velocity :: vec3
  velocityVariance :: vec3
  startColor :: vec4
  endColor :: vec4
  startSize :: float
  endSize :: float
  minLife :: float
  e_maxLife :: float
  emissionRate :: float
  maxParticles :: int
  gravity :: vec3
  drag :: float
  looping :: bool
  duration :: float

text \<open>The default member initialisers of \<open>EmitterConfig\<close>.\<close>

definition EmitterConfig_default :: EmitterConfig where
  "EmitterConfig_default =
     \<lparr>e_position = vec3 0 0 0, positionVariance = vec3 1 1 1,
      e_velocity = vec3 0 5 0, velocityVariance = vec3 1 1 1,
      startColor = vec4 1 1 1 1, endColor = vec4 1 1 1 0,
      startSize = 1, endSize = 1/10, minLife = 1, e_maxLife = 3,
      emissionRate = 50, maxParticles = 1000,
      gravity = vec3 0 (-981/100) 0, drag = 1/10, looping = True, duration = 0\<rparr>"


text \<open>
  The random engine and its distribution are the stream of values that \<open>dist(rng)\<close> will
  return, one per call. The constructor seeds the engine from the random device, so the
  stream of a new system is arbitrary.
\<close>

record ParticleSystem =
  particles :: "Particle list"
  vertices :: "ParticleVertex list"
  indices :: "uint32 list"
  config :: EmitterConfig
  active :: bool
  emissionAccumulator :: float
  systemTime :: float
  rng :: "float stream"

definition ParticleSystem_new :: "float stream \<Rightarrow> ParticleSystem" where
  "ParticleSystem_new g =
     \<lparr>particles = [], vertices = [], indices = [], config = EmitterConfig_default,
      active = False, emissionAccumulator = 0, systemTime = 0, rng = g\<rparr>"

text \<open>
  What the program can raise or run into. \<open>std::vector::resize\<close> and \<open>reserve\<close> throw
  \<open>std::length_error\<close> for a size above \<open>max_size()\<close>, which every negative \<open>int\<close>
  converted to \<open>size_t\<close> is. A product of two \<open>int\<close> outside the 32-bit range is
  undefined behaviour; the model stops there.
\<close>

datatype error = length_error | signed_overflow

definition INT_MAX :: int where
  "INT_MAX = 2147483647"

text \<open>The value-initialised Particle that \<open>resize\<close> appends.\<close>

definition Particle_zero :: Particle where
  "Particle_zero =
     \<lparr>p_position = vec3 0 0 0, p_velocity = vec3 0 0 0, p_color = vec4 0 0 0 0,
      life = 0, maxLife = 0, p_size = 0\<rparr>"

definition resize :: "nat \<Rightarrow> Particle list \<Rightarrow> Particle list" where
  "resize n ps = take n ps @ replicate (n - length ps) Particle_zero"

text \<open>The body both \<open>init\<close> overloads run once \<open>config\<close> is set. \<open>reserve\<close> changes
  the capacity only, which the model does not hold.\<close>

definition init_pool :: "ParticleSystem \<Rightarrow> error + ParticleSystem" where
  "init_pool s =
     (if maxParticles (config s) < 0 then Inl length_error
      else
        let s1 = s\<lparr>particles := resize (nat (maxParticles (config s))) (particles s)\<rparr> in
        if maxParticles (config s1) * 4 > INT_MAX then Inl signed_overflow
        else if maxParticles (config s1) * 6 > INT_MAX then Inl signed_overflow
        else
          let s2 = s1\<lparr>particles := map (\<lambda>p. p\<lparr>life := 0\<rparr>) (particles s1)\<rparr>
          in Inr (s2\<lparr>active := True, systemTime := 0\<rparr>))"


definition init :: "EmitterConfig \<Rightarrow> ParticleSystem \<Rightarrow> error + ParticleSystem" where
  "init cfg s = init_pool (s\<lparr>config := cfg\<rparr>)"

definition setPosition :: "vec3 \<Rightarrow> ParticleSystem \<Rightarrow> ParticleSystem" where
  "setPosition pos s = s\<lparr>config := (config s)\<lparr>e_position := pos\<rparr>\<rparr>"

definition start :: "ParticleSystem \<Rightarrow> ParticleSystem" where
  "start s = s\<lparr>active := True\<rparr>"

definition stop :: "ParticleSystem \<Rightarrow> ParticleSystem" where
  "stop s = s\<lparr>active := False\<rparr>"

definition isActive :: "ParticleSystem \<Rightarrow> bool" where
  "isActive s = active s"

definition getAliveCount :: "ParticleSystem \<Rightarrow> int" where
  "getAliveCount s = fold (\<lambda>p count. if isAlive p then count + 1 else count) (particles s) 0"

definition randomRange :: "float \<Rightarrow> float \<Rightarrow> float stream \<Rightarrow> float \<times> float stream" where
  "randomRange lo hi g = (lo + shd g * (hi - lo), stl g)"

text \<open>The assignments \<open>emitParticle\<close> makes to the slot it recycles. The three draws of a
  vector are taken in the order x, y, z.\<close>

definition emitParticle_fill :: "EmitterConfig \<Rightarrow> Particle \<Rightarrow> float stream \<Rightarrow> Particle \<times> float stream" where
  "emitParticle_fill cfg p g0 =
     (let (px, g1) = randomRange (- vx (positionVariance cfg)) (vx (positionVariance cfg)) g0;
          (py, g2) = randomRange (- vy (positionVariance cfg)) (vy (positionVariance cfg)) g1;
          (pz, g3) = randomRange (- vz (positionVariance cfg)) (vz (positionVariance cfg)) g2;
          p1 = p\<lparr>p_position := add3 (e_position cfg) (vec3 px py pz)\<rparr>;
          (ux, g4) = randomRange (- vx (velocityVariance cfg)) (vx (velocityVariance cfg)) g3;
          (uy, g5) = randomRange (- vy (velocityVariance cfg)) (vy (velocityVariance cfg)) g4;
          (uz, g6) = randomRange (- vz (velocityVariance cfg)) (vz (velocityVariance cfg)) g5;
          p2 = p1\<lparr>p_velocity := add3 (e_velocity cfg) (vec3 ux uy uz)\<rparr>;
          (l, g7) = randomRange (minLife cfg) (e_maxLife cfg) g6;
          p3 = p2\<lparr>life := l\<rparr>;
          p4 = p3\<lparr>maxLife := life p3\<rparr>;
          p5 = p4\<lparr>p_color := startColor cfg\<rparr>
      in (p5\<lparr>p_size := startSize cfg\<rparr>, g7))"

text \<open>The scan of \<open>emitParticle\<close>: the first slot that is not alive is filled and the
  function returns; when the loop ends without one, nothing has been written.\<close>

fun emitParticle_scan :: "EmitterConfig \<Rightarrow> Particle list \<Rightarrow> float stream \<Rightarrow> Particle list \<times> float stream" where
  "emitParticle_scan cfg [] g = ([], g)"
| "emitParticle_scan cfg (p # ps) g =
     (if isAlive p then
        (let (ps', g') = emitParticle_scan cfg ps g in (p # ps', g'))
      else
        (let (p', g') = emitParticle_fill cfg p g in (p' # ps, g')))"

definition emitParticle :: "ParticleSystem \<Rightarrow> ParticleSystem" where
  "emitParticle s =
     (let (ps, g) = emitParticle_scan (config s) (particles s) (rng s)
      in s\<lparr>particles := ps, rng := g\<rparr>)"

text \<open>The emission loop of \<open>update\<close>: \<open>while (emissionAccumulator >= 1.0f)\<close>.\<close>

function update_emit :: "ParticleSystem \<Rightarrow> ParticleSystem" where
  "update_emit s =
     (if emissionAccumulator s \<ge> 1 then
        (let s1 = emitParticle s
         in update_emit (s1\<lparr>emissionAccumulator := emissionAccumulator s1 - 1\<rparr>))
      else s)"
  by pat_completeness auto
termination
proof (relation "measure (\<lambda>s. nat \<lceil>emissionAccumulator s\<rceil>)")
  show "wf (measure (\<lambda>s. nat \<lceil>emissionAccumulator s\<rceil>))" by simp
next
  fix s :: ParticleSystem and s1
  assume a: "1 \<le> emissionAccumulator s" and s1: "s1 = emitParticle s"
  have "emissionAccumulator s1 = emissionAccumulator s"
    unfolding s1 by (simp add: emitParticle_def split: prod.splits)
  moreover have "\<lceil>emissionAccumulator s - 1\<rceil> = \<lceil>emissionAccumulator s\<rceil> - 1" by linarith
  moreover have "1 \<le> \<lceil>emissionAccumulator s\<rceil>" using a by linarith
  ultimately show "(s1\<lparr>emissionAccumulator := emissionAccumulator s1 - 1\<rparr>, s)
      \<in> measure (\<lambda>s. nat \<lceil>emissionAccumulator s\<rceil>)"
    by simp
qed

declare update_emit.simps [simp del]

text \<open>The body of the per-particle loop of \<open>update\<close>.\<close>

definition update_particle :: "EmitterConfig \<Rightarrow> float \<Rightarrow> Particle \<Rightarrow> Particle" where
  "update_particle cfg deltaTime p =
     (if \<not> isAlive p then p
      else
        let p1 = p\<lparr>p_velocity := add3 (p_velocity p) (scale3 (gravity cfg) deltaTime)\<rparr>;
            p2 = p1\<lparr>p_velocity := scale3 (p_velocity p1) (1 - drag cfg * deltaTime)\<rparr>;
            p3 = p2\<lparr>p_position := add3 (p_position p2) (scale3 (p_velocity p2) deltaTime)\<rparr>;
            p4 = p3\<lparr>life := life p3 - deltaTime\<rparr>;
            age = getAge p4;
            p5 = p4\<lparr>p_color := mix4 (startColor cfg) (endColor cfg) age\<rparr>
        in p5\<lparr>p_size := mix (startSize cfg) (endSize cfg) age\<rparr>)"

text \<open>\<open>update\<close> up to the per-particle loop: the clock, the duration check and the
  emission.\<close>

definition update_begin :: "float \<Rightarrow> ParticleSystem \<Rightarrow> ParticleSystem" where
  "update_begin deltaTime s =
     (let s1 = s\<lparr>systemTime := systemTime s + deltaTime\<rparr>;
          s2 = (if \<not> looping (config s1) \<and> duration (config s1) > 0
                   \<and> systemTime s1 > duration (config s1)
                then s1\<lparr>active := False\<rparr> else s1)
      in if active s2 then
           update_emit (s2\<lparr>emissionAccumulator :=
              emissionAccumulator s2 + emissionRate (config s2) * deltaTime\<rparr>)
         else s2)"

definition update :: "float \<Rightarrow> ParticleSystem \<Rightarrow> ParticleSystem" where
  "update deltaTime s =
     (if \<not> active s \<and> getAliveCount s = 0 then s
      else
        let s1 = update_begin deltaTime s
        in s1\<lparr>particles := map (update_particle (config s1) deltaTime) (particles s1)\<rparr>)"

text \<open>The loop of \<open>generateVertices\<close>, carrying the two buffers and \<open>vertexIndex\<close>.\<close>

fun generateVertices_loop ::
  "vec3 \<Rightarrow> vec3 \<Rightarrow> Particle list \<Rightarrow> ParticleVertex list \<times> uint32 list \<times> uint32
     \<Rightarrow> ParticleVertex list \<times> uint32 list \<times> uint32" where
  "generateVertices_loop cameraRight cameraUp [] acc = acc"
| "generateVertices_loop cameraRight cameraUp (p # ps) (vs, is, vertexIndex) =
     (if \<not> isAlive p then generateVertices_loop cameraRight cameraUp ps (vs, is, vertexIndex)
      else
        let right = scale3 cameraRight (p_size p);
            up = scale3 cameraUp (p_size p);
            v0 = \<lparr>pv_position = sub3 (sub3 (p_position p) right) up, pv_color = p_color p,
                  pv_texCoord = vec2 0 0, pv_size = p_size p\<rparr>;
            v1 = \<lparr>pv_position = sub3 (add3 (p_position p) right) up, pv_color = p_color p,
                  pv_texCoord = vec2 1 0, pv_size = p_size p\<rparr>;
            v2 = \<lparr>pv_position = add3 (add3 (p_position p) right) up, pv_color = p_color p,
                  pv_texCoord = vec2 1 1, pv_size = p_size p\<rparr>;
            v3 = \<lparr>pv_position = add3 (sub3 (p_position p) right) up, pv_color = p_color p,
                  pv_texCoord = vec2 0 1, pv_size = p_size p\<rparr>
        in generateVertices_loop cameraRight cameraUp ps
             (vs @ [v0, v1, v2, v3],
              is @ [vertexIndex + 0, vertexIndex + 1, vertexIndex + 2,
                    vertexIndex + 0, vertexIndex + 2, vertexIndex + 3],
              vertexIndex + 4))"

definition generateVertices :: "vec3 \<Rightarrow> vec3 \<Rightarrow> ParticleSystem \<Rightarrow> ParticleSystem" where
  "generateVertices cameraRight cameraUp s =
     (let (vs, is, vertexIndex) =
            generateVertices_loop cameraRight cameraUp (particles s) ([], [], 0)
      in s\<lparr>vertices := vs, indices := is\<rparr>)"

definition getVertexCount :: "ParticleSystem \<Rightarrow> nat" where
  "getVertexCount s = length (vertices s)"

definition getIndexCount :: "ParticleSystem \<Rightarrow> nat" where
  "getIndexCount s = length (indices s)"

section \<open>Vertex and Mesh (Vertex.h, Mesh.h, Mesh.cpp)\<close>

record Vertex =
  v_position :: vec3
  v_normal :: vec3
  v_texCoord :: vec2
  v_color :: vec3

record Mesh =
  m_vertices :: "Vertex list"
  m_indices :: "uint32 list"
  m_minBounds :: vec3
  m_maxBounds :: vec3

text \<open>\<open>std::numeric_limits<float>::max()\<close>; \<open>lowest()\<close> is its negation.\<close>

definition FLT_MAX :: float where
  "FLT_MAX = 340282346638528859811704183484516925440"

fun min3 :: "vec3 \<Rightarrow> vec3 \<Rightarrow> vec3" where
  "min3 (vec3 a b c) (vec3 d e f) = vec3 (min a d) (min b e) (min c f)"

fun max3 :: "vec3 \<Rightarrow> vec3 \<Rightarrow> vec3" where
  "max3 (vec3 a b c) (vec3 d e f) = vec3 (max a d) (max b e) (max c f)"

definition recalculateBounds :: "Mesh \<Rightarrow> Mesh" where
  "recalculateBounds m =
     (if m_vertices m = [] then m\<lparr>m_minBounds := vec3 0 0 0, m_maxBounds := vec3 0 0 0\<rparr>
      else
        fold (\<lambda>vertex m. m\<lparr>m_minBounds := min3 (m_minBounds m) (v_position vertex),
                              m_maxBounds := max3 (m_maxBounds m) (v_position vertex)\<rparr>)
          (m_vertices m)
          (m\<lparr>m_minBounds := vec3 FLT_MAX FLT_MAX FLT_MAX,
             m_maxBounds := vec3 (- FLT_MAX) (- FLT_MAX) (- FLT_MAX)\<rparr>))"

text \<open>The constructor \<open>Mesh(vertices, indices)\<close>.\<close>

definition Mesh_new :: "Vertex list \<Rightarrow> uint32 list \<Rightarrow> Mesh" where
  "Mesh_new vs inds =
     recalculateBounds
       \<lparr>m_vertices = vs, m_indices = inds, m_minBounds = vec3 0 0 0, m_maxBounds = vec3 0 0 0\<rparr>"

section \<open>Counting loops over uint32_t\<close>

text \<open>
  \<open>for (uint32_t i = i0; i <= n; ++i) body\<close>, on a state \<open>s\<close>. The counter wraps around
  at \<open>2^32\<close>, so for \<open>n = 4294967295\<close> the condition never fails and the loop does not end
  by itself (the program keeps appending until an allocation fails): the result is
  \<open>None\<close>, no value is returned. The body may hold such a loop itself.
\<close>

partial_function (option) for_le ::
  "uint32 \<Rightarrow> uint32 \<Rightarrow> (uint32 \<Rightarrow> 's \<Rightarrow> 's option) \<Rightarrow> 's \<Rightarrow> 's option" where
  "for_le i n body s =
     (if i \<le> n then Option.bind (body i s) (\<lambda>s'. for_le (i + 1) n body s') else Some s)"

text \<open>\<open>for (uint32_t i = i0; i < n; ++i) body\<close>: the counter stays below \<open>n\<close>, the loop
  ends.\<close>

function for_lt :: "uint32 \<Rightarrow> uint32 \<Rightarrow> (uint32 \<Rightarrow> 's \<Rightarrow> 's) \<Rightarrow> 's \<Rightarrow> 's" where
  "for_lt i n body s = (if i < n then for_lt (i + 1) n body (body i s) else s)"
  by pat_completeness auto
termination
proof (relation "measure (\<lambda>(i, n, body, s). unat n - unat i)")
  show "wf (measure (\<lambda>(i, n, body, s). unat n - unat i))" by simp
next
  fix i n :: uint32 and body :: "uint32 \<Rightarrow> 's \<Rightarrow> 's" and s :: 's
  assume "i < n"
  then have "unat (i + 1) = unat i + 1" and "unat i < unat n"
    by unat_arith+
  then show "((i + 1, n, body, body i s), (i, n, body, s))
      \<in> measure (\<lambda>(i, n, body, s). unat n - unat i)"
    by simp
qed

declare for_lt.simps [simp del]

section \<open>MeshGenerator (MeshGenerator.cpp)\<close>

text \<open>\<open>static_cast<float>\<close> of a counter is its value.\<close>

definition to_float :: "uint32 \<Rightarrow> float" where
  "to_float i = real (unat i)"

definition createSphere :: "float \<Rightarrow> uint32 \<Rightarrow> uint32 \<Rightarrow> vec3 \<Rightarrow> Mesh option" where
  "createSphere radius segs rings color =
     do {
       vs \<leftarrow> for_le 0 rings (\<lambda>ring vs.
           let phi = pi * to_float ring / to_float rings;
               sinPhi = sin phi;
               cosPhi = cos phi
           in for_le 0 segs (\<lambda>segment vs.
                let theta = 2 * pi * to_float segment / to_float segs;
                    sinTheta = sin theta;
                    cosTheta = cos theta;
                    normal = vec3 (sinPhi * cosTheta) cosPhi (sinPhi * sinTheta);
                    position = scale3 normal radius;
                    texCoord = vec2 (to_float segment / to_float segs)
                                    (to_float ring / to_float rings)
                in Some (vs @ [\<lparr>v_position = position, v_normal = normal,
                                 v_texCoord = texCoord, v_color = color\<rparr>])) vs) [];
       let inds = for_lt 0 rings (\<lambda>ring inds.
           for_lt 0 segs (\<lambda>segment inds.
             let current = ring * (segs + 1) + segment;
                 next = current + segs + 1
             in inds @ [current, next, current + 1, current + 1, next, next + 1]) inds) [];
       Some (Mesh_new vs inds)
     }"

text \<open>The ring of \<open>segments + 1\<close> vertices that \<open>createCylinder\<close> pushes three times: the
  side rings (normal outward, strip texCoord) and the cap rings (normal along Y, polar
  texCoord).\<close>

definition side_vertex :: "float \<Rightarrow> float \<Rightarrow> float \<Rightarrow> uint32 \<Rightarrow> vec3 \<Rightarrow> uint32 \<Rightarrow> Vertex" where
  "side_vertex radius y v segs color seg =
     (let theta = 2 * pi * to_float seg / to_float segs;
          cosTheta = cos theta;
          sinTheta = sin theta;
          position = vec3 (radius * cosTheta) y (radius * sinTheta);
          normal = vec3 cosTheta 0 sinTheta;
          texCoord = vec2 (to_float seg / to_float segs) v
      in \<lparr>v_position = position, v_normal = normal, v_texCoord = texCoord, v_color = color\<rparr>)"

definition cap_vertex :: "float \<Rightarrow> float \<Rightarrow> float \<Rightarrow> uint32 \<Rightarrow> vec3 \<Rightarrow> uint32 \<Rightarrow> Vertex" where
  "cap_vertex radius y ny segs color seg =
     (let theta = 2 * pi * to_float seg / to_float segs;
          cosTheta = cos theta;
          sinTheta = sin theta;
          position = vec3 (radius * cosTheta) y (radius * sinTheta);
          texCoord = vec2 (5/10 + 5/10 * cosTheta) (5/10 + 5/10 * sinTheta)
      in \<lparr>v_position = position, v_normal = vec3 0 ny 0, v_texCoord = texCoord, v_color = color\<rparr>)"

definition createCylinder :: "float \<Rightarrow> float \<Rightarrow> uint32 \<Rightarrow> vec3 \<Rightarrow> Mesh option" where
  "createCylinder radius h segs color =
     do {
       let halfHeight = h * (5/10);
       vs \<leftarrow> for_le 0 1 (\<lambda>i vs.
           let y = (if i = 0 then - halfHeight else halfHeight);
               v = to_float i
           in for_le 0 segs (\<lambda>seg vs. Some (vs @ [side_vertex radius y v segs color seg])) vs) [];
       let inds = for_lt 0 segs (\<lambda>seg inds.
           let bottom = seg;
               top = seg + segs + 1
           in inds @ [bottom, bottom + 1, top, top, bottom + 1, top + 1]) [];
       let topCenterIndex = (of_nat (length vs) :: uint32);
       let vs = vs @ [\<lparr>v_position = vec3 0 halfHeight 0, v_normal = vec3 0 1 0,
                        v_texCoord = vec2 (5/10) (5/10), v_color = color\<rparr>];
       vs \<leftarrow> for_le 0 segs (\<lambda>seg vs. Some (vs @ [cap_vertex radius halfHeight 1 segs color seg])) vs;
       let inds = for_lt 0 segs (\<lambda>seg inds.
           inds @ [topCenterIndex, topCenterIndex + 1 + seg + 1, topCenterIndex + 1 + seg]) inds;
       let bottomCenterIndex = (of_nat (length vs) :: uint32);
       let vs = vs @ [\<lparr>v_position = vec3 0 (- halfHeight) 0, v_normal = vec3 0 (-1) 0,
                        v_texCoord = vec2 (5/10) (5/10), v_color = color\<rparr>];
       vs \<leftarrow> for_le 0 segs (\<lambda>seg vs. Some (vs @ [cap_vertex radius (- halfHeight) (-1) segs color seg])) vs;
       let inds = for_lt 0 segs (\<lambda>seg inds.
           inds @ [bottomCenterIndex, bottomCenterIndex + 1 + seg, bottomCenterIndex + 1 + seg + 1]) inds;
       Some (Mesh_new vs inds)
     }"

section \<open>Cactus geometry (Cactus.cpp)\<close>

text \<open>
  GLM's matrix functions are a library outside the repository. The cactus code is modelled
  over any matrix types \<open>'m\<close> (\<open>glm::mat4\<close>) and \<open>'n\<close> (\<open>glm::mat3\<close>) with the
  functions it calls: the identity \<open>glm::mat4(1.0f)\<close>, \<open>glm::translate\<close>,
  \<open>glm::rotate\<close>, the product \<open>glm::vec3(m * glm::vec4(v, 1.0f))\<close>, the conversion
  \<open>glm::mat3(m)\<close>, \<open>glm::inverse\<close>, \<open>glm::transpose\<close>, the product of a \<open>mat3\<close> and a
  vector, and \<open>glm::normalize\<close>.
\<close>

record ('m, 'n) GLM =
  glm_identity :: 'm
  glm_translate :: "'m \<Rightarrow> vec3 \<Rightarrow> 'm"
  glm_rotate :: "'m \<Rightarrow> float \<Rightarrow> vec3 \<Rightarrow> 'm"
  glm_transform :: "'m \<Rightarrow> vec3 \<Rightarrow> vec3"
  glm_mat3 :: "'m \<Rightarrow> 'n"
  glm_inverse :: "'n \<Rightarrow> 'n"
  glm_transpose :: "'n \<Rightarrow> 'n"
  glm_mul3 :: "'n \<Rightarrow> vec3 \<Rightarrow> vec3"
  glm_normalize :: "vec3 \<Rightarrow> vec3"

definition radians :: "float \<Rightarrow> float" where
  "radians degrees = degrees * (pi / 180)"

text \<open>The body of the two loops of \<open>generateArm\<close> that transform a vertex.\<close>

definition transform_vertex :: "('m, 'n) GLM \<Rightarrow> 'm \<Rightarrow> Vertex \<Rightarrow> Vertex" where
  "transform_vertex G transform v =
     (let transformed = v;
          pos = glm_transform G transform (v_position v);
          transformed = transformed\<lparr>v_position := pos\<rparr>;
          normalMatrix = glm_transpose G (glm_inverse G (glm_mat3 G transform))
      in transformed\<lparr>v_normal := glm_normalize G (glm_mul3 G normalMatrix (v_normal v))\<rparr>)"

definition generateArm :: "('m, 'n) GLM \<Rightarrow> Cactus \<Rightarrow> float \<Rightarrow> float \<Rightarrow> float \<Rightarrow> Mesh option" where
  "generateArm G c attachHeight angle armLength =
     do {
       let armRadius = trunkRadius (m_config c) * (6/10) * m_growthFactor c;
       let elbowLength = armLength * (5/10);
       horizontal \<leftarrow> createCylinder armRadius elbowLength (segments (m_config c)) (c_color (m_config c));
       vertical \<leftarrow> createCylinder armRadius (armLength * (6/10)) (segments (m_config c)) (c_color (m_config c));
       let transform = glm_identity G;
       let transform = glm_translate G transform (c_position (m_config c));
       let transform = glm_translate G transform (vec3 0 attachHeight 0);
       let transform = glm_rotate G transform angle (vec3 0 1 0);
       let transform = glm_rotate G transform (radians 90) (vec3 0 0 1);
       let transform = glm_translate G transform
             (vec3 0 (elbowLength * (5/10) + trunkRadius (m_config c)) 0);
       let armVertices = [] @ map (transform_vertex G transform) (m_vertices horizontal);
       let armIndices = [] @ m_indices horizontal;
       let vertTransform = glm_identity G;
       let vertTransform = glm_translate G vertTransform (c_position (m_config c));
       let vertTransform = glm_translate G vertTransform (vec3 0 attachHeight 0);
       let vertTransform = glm_rotate G vertTransform angle (vec3 0 1 0);
       let vertTransform = glm_translate G vertTransform
             (vec3 (elbowLength + trunkRadius (m_config c)) (armLength * (3/10)) 0);
       let indexOffset = (of_nat (length armVertices) :: uint32);
       let armVertices = armVertices @ map (transform_vertex G vertTransform) (m_vertices vertical);
       let armIndices = armIndices @ map (\<lambda>idx. idx + indexOffset) (m_indices vertical);
       Some (Mesh_new armVertices armIndices)
     }"

text \<open>The loop over the arms of \<open>generateMesh\<close>: \<open>for (int i = 0; i < numArms; ++i)\<close>,
  carrying \<open>allVertices\<close> and \<open>allIndices\<close>.\<close>

function generateMesh_arms ::
  "('m, 'n) GLM \<Rightarrow> Cactus \<Rightarrow> float \<Rightarrow> int \<Rightarrow> Vertex list \<times> uint32 list
     \<Rightarrow> (Vertex list \<times> uint32 list) option" where
  "generateMesh_arms G c actualHeight i (allVertices, allIndices) =
     (if i < numArms (m_config c) then
        let angle = (real_of_int i / real_of_int (numArms (m_config c))) * (2 * pi);
            angle = angle + pi * (25/100);
            attachHeight = actualHeight * armHeight (m_config c);
            armLength = actualHeight * (4/10)
        in case generateArm G c attachHeight angle armLength of
             None \<Rightarrow> None
           | Some arm \<Rightarrow>
               let indexOffset = (of_nat (length allVertices) :: uint32)
               in generateMesh_arms G c actualHeight (i + 1)
                    (allVertices @ m_vertices arm,
                     allIndices @ map (\<lambda>idx. idx + indexOffset) (m_indices arm))
      else Some (allVertices, allIndices))"
  by pat_completeness auto
termination
  by (relation "measure (\<lambda>(G, c, actualHeight, i, acc). nat (numArms (m_config c) - i))") auto

declare generateMesh_arms.simps [simp del]

text \<open>The trunk loop of \<open>generateMesh\<close>: lift a vertex by half the height, then move it to
  the world position.\<close>

definition trunk_vertex :: "Config \<Rightarrow> float \<Rightarrow> Vertex \<Rightarrow> Vertex" where
  "trunk_vertex cfg actualHeight v =
     (let transformed = v;
          transformed = transformed\<lparr>v_position :=
             vec3 (vx (v_position transformed))
                  (vy (v_position transformed) + actualHeight * (5/10))
                  (vz (v_position transformed))\<rparr>
      in transformed\<lparr>v_position := add3 (v_position transformed) (c_position cfg)\<rparr>)"

definition generateMesh :: "('m, 'n) GLM \<Rightarrow> Cactus \<Rightarrow> Mesh option" where
  "generateMesh G c =
     do {
       let actualHeight = height (m_config c) * m_growthFactor c;
       let actualRadius = trunkRadius (m_config c) * m_growthFactor c;
       trunk \<leftarrow> createCylinder actualRadius actualHeight (segments (m_config c)) (c_color (m_config c));
       let allVertices = [] @ map (trunk_vertex (m_config c) actualHeight) (m_vertices trunk);
       let allIndices = [] @ m_indices trunk;
       (allVertices, allIndices) \<leftarrow> generateMesh_arms G c actualHeight 0 (allVertices, allIndices);
       Some (Mesh_new allVertices allIndices)
     }"

section \<open>IEEE values\<close>

text \<open>
  Two functions are the subject of statements about every \<open>float\<close>, the infinities and NaN
  included: \<open>Particle::getAge\<close> and \<open>Cactus::grow\<close>. For them the values of a \<open>float\<close>
  are modelled as the finite numbers, the two infinities and NaN, with IEEE 754's rules
  for the operations the two functions use. Finite arithmetic stays exact (no rounding, no
  overflow to infinity), and the sign of a zero is not modelled: a non-zero finite number
  divided by zero gives the infinity of the dividend's sign (with a negative zero it would
  be the other infinity; the statements below hold with either, and the examples compute
  with the positive zero). Every comparison with NaN is false. The C++ \<open>==\<close> is HOL's equality except that \<open>NaN == NaN\<close> is false; where a
  statement below stands for a \<open>==\<close> of the program, one side is not NaN.
\<close>

datatype ieee = Finite real | PosInf | NegInf | NaN

instantiation ieee :: "{plus, uminus, minus, inverse, ord}"
begin

fun plus_ieee :: "ieee \<Rightarrow> ieee \<Rightarrow> ieee" where
  "NaN + y = NaN"
| "x + NaN = NaN"
| "PosInf + NegInf = NaN"
| "NegInf + PosInf = NaN"
| "PosInf + y = PosInf"
| "x + PosInf = PosInf"
| "NegInf + y = NegInf"
| "x + NegInf = NegInf"
| "Finite a + Finite b = Finite (a + b)"

fun uminus_ieee :: "ieee \<Rightarrow> ieee" where
  "- NaN = NaN"
| "- PosInf = NegInf"
| "- NegInf = PosInf"
| "- Finite a = Finite (- a)"

definition minus_ieee :: "ieee \<Rightarrow> ieee \<Rightarrow> ieee" where
  "(x :: ieee) - y = x + (- y)"

text \<open>The quotient: \<open>div\<close> in the equations below is the \<open>/\<close> of every later statement.\<close>

fun divide_ieee :: "ieee \<Rightarrow> ieee \<Rightarrow> ieee" where
  "NaN div y = NaN"
| "x div NaN = NaN"
| "PosInf div PosInf = NaN"
| "PosInf div NegInf = NaN"
| "NegInf div PosInf = NaN"
| "NegInf div NegInf = NaN"
| "PosInf div Finite b = (if b < 0 then NegInf else PosInf)"
| "NegInf div Finite b = (if b < 0 then PosInf else NegInf)"
| "Finite a div PosInf = Finite 0"
| "Finite a div NegInf = Finite 0"
| "Finite a div Finite b =
     (if b \<noteq> 0 then Finite (a / b)
      else if a > 0 then PosInf else if a < 0 then NegInf else NaN)"

definition inverse_ieee :: "ieee \<Rightarrow> ieee" where
  "inverse_ieee (x :: ieee) = Finite 1 div x"

fun less_ieee :: "ieee \<Rightarrow> ieee \<Rightarrow> bool" where
  "NaN < y = False"
| "x < NaN = False"
| "x < NegInf = False"
| "PosInf < y = False"
| "NegInf < y = True"
| "x < PosInf = True"
| "Finite a < Finite b = (a < b)"

definition less_eq_ieee :: "ieee \<Rightarrow> ieee \<Rightarrow> bool" where
  "(x :: ieee) \<le> y = (x < y \<or> (x = y \<and> x \<noteq> NaN))"

instance ..

end

text \<open>\<open>glm::max(x, y)\<close> is \<open>(x < y) ? y : x\<close>, \<open>glm::min(x, y)\<close> is \<open>(y < x) ? y : x\<close>, and
  \<open>glm::clamp(x, lo, hi)\<close> is \<open>min(max(x, lo), hi)\<close>.\<close>

definition max_ieee :: "ieee \<Rightarrow> ieee \<Rightarrow> ieee" where
  "max_ieee x y = (if x < y then y else x)"

definition min_ieee :: "ieee \<Rightarrow> ieee \<Rightarrow> ieee" where
  "min_ieee x y = (if y < x then y else x)"

definition clamp_ieee :: "ieee \<Rightarrow> ieee \<Rightarrow> ieee \<Rightarrow> ieee" where
  "clamp_ieee x lo hi = min_ieee (max_ieee x lo) hi"

text \<open>The struct Particle with \<open>life\<close> and \<open>maxLife\<close> over the IEEE values (the members
  \<open>getAge\<close> and \<open>isAlive\<close> read), and its two member functions.\<close>

record Particle_ieee =
  position_ieee :: vec3
  velocity_ieee :: vec3
  color_ieee :: vec4
  life_ieee :: ieee
  maxLife_ieee :: ieee
  size_ieee :: float

definition isAlive_ieee :: "Particle_ieee \<Rightarrow> bool" where
  "isAlive_ieee p = (Finite 0 < life_ieee p)"

definition getAge_ieee :: "Particle_ieee \<Rightarrow> ieee" where
  "getAge_ieee p =
     (if Finite 0 < maxLife_ieee p then Finite 1 - (life_ieee p / maxLife_ieee p) else Finite 1)"

text \<open>The class Cactus with the growth factor over the IEEE values, its constructor and
  \<open>grow\<close>. The configuration, which \<open>grow\<close> neither reads nor writes, is the one above.\<close>

record Cactus_ieee =
  config_ieee :: Config
  growthFactor_ieee :: ieee
  isBurning_ieee :: bool

definition Cactus_ieee_new :: "Config \<Rightarrow> Cactus_ieee" where
  "Cactus_ieee_new cfg =
     \<lparr>config_ieee = cfg, growthFactor_ieee = Finite 1, isBurning_ieee = False\<rparr>"

definition grow_ieee :: "ieee \<Rightarrow> Cactus_ieee \<Rightarrow> Cactus_ieee" where
  "grow_ieee amount c =
     (let c1 = c\<lparr>growthFactor_ieee := growthFactor_ieee c + amount\<rparr>
      in c1\<lparr>growthFactor_ieee := clamp_ieee (growthFactor_ieee c1) (Finite (1/10)) (Finite 4)\<rparr>)"

text \<open>A sequence of \<open>grow\<close> calls, in order.\<close>

fun grow_all_ieee :: "ieee list \<Rightarrow> Cactus_ieee \<Rightarrow> Cactus_ieee" where
  "grow_all_ieee [] c = c"
| "grow_all_ieee (x # xs) c = grow_all_ieee xs (grow_ieee x c)"

text \<open>The finite particles and cactus states of the sections above, as IEEE ones.\<close>

definition Particle_to_ieee :: "Particle \<Rightarrow> Particle_ieee" where
  "Particle_to_ieee p =
     \<lparr>position_ieee = p_position p, velocity_ieee = p_velocity p, color_ieee = p_color p,
      life_ieee = Finite (life p), maxLife_ieee = Finite (maxLife p), size_ieee = p_size p\<rparr>"

definition Cactus_to_ieee :: "Cactus \<Rightarrow> Cactus_ieee" where
  "Cactus_to_ieee c =
     \<lparr>config_ieee = m_config c, growthFactor_ieee = Finite (m_growthFactor c),
      isBurning_ieee = m_isBurning c\<rparr>"

section \<open>The statements of the specification\<close>

text \<open>The definitions of this section are not taken from the program: they write down what
  the specification says, to be compared with the program's functions above, and name the
  concrete systems the examples run.\<close>

text \<open>The physics step of one alive particle as the specification orders it: gravity, drag,
  the position from the new velocity, the life, the age from the new life, then colour and
  size.\<close>

definition integrate :: "EmitterConfig \<Rightarrow> float \<Rightarrow> Particle \<Rightarrow> Particle" where
  "integrate cfg dt p =
     (let newVelocity = scale3 (add3 (p_velocity p) (scale3 (gravity cfg) dt)) (1 - drag cfg * dt);
          newLife = life p - dt;
          age = (if maxLife p > 0 then 1 - newLife / maxLife p else 1)
      in \<lparr>p_position = add3 (p_position p) (scale3 newVelocity dt),
          p_velocity = newVelocity,
          p_color = mix4 (startColor cfg) (endColor cfg) age,
          life = newLife,
          maxLife = maxLife p,
          p_size = mix (startSize cfg) (endSize cfg) age\<rparr>)"

text \<open>The four corners of one particle's quad and the six indices of its two triangles.\<close>

definition billboard :: "vec3 \<Rightarrow> vec3 \<Rightarrow> Particle \<Rightarrow> ParticleVertex list" where
  "billboard cameraRight cameraUp p =
     (let right = scale3 cameraRight (p_size p); up = scale3 cameraUp (p_size p)
      in [\<lparr>pv_position = sub3 (sub3 (p_position p) right) up, pv_color = p_color p,
            pv_texCoord = vec2 0 0, pv_size = p_size p\<rparr>,
          \<lparr>pv_position = sub3 (add3 (p_position p) right) up, pv_color = p_color p,
            pv_texCoord = vec2 1 0, pv_size = p_size p\<rparr>,
          \<lparr>pv_position = add3 (add3 (p_position p) right) up, pv_color = p_color p,
            pv_texCoord = vec2 1 1, pv_size = p_size p\<rparr>,
          \<lparr>pv_position = add3 (sub3 (p_position p) right) up, pv_color = p_color p,
            pv_texCoord = vec2 0 1, pv_size = p_size p\<rparr>])"

definition quad_indices :: "uint32 \<Rightarrow> uint32 list" where
  "quad_indices b = [b, b + 1, b + 2, b, b + 2, b + 3]"

text \<open>A sequence of calls on a system, in order.\<close>

datatype call = Update float | Start | Stop

fun run_call :: "call \<Rightarrow> ParticleSystem \<Rightarrow> ParticleSystem" where
  "run_call (Update deltaTime) s = update deltaTime s"
| "run_call Start s = start s"
| "run_call Stop s = stop s"

fun run_calls :: "call list \<Rightarrow> ParticleSystem \<Rightarrow> ParticleSystem" where
  "run_calls [] s = s"
| "run_calls (c # cs) s = run_calls cs (run_call c s)"

text \<open>What the calls keep: the configuration and the pool size.\<close>

definition pool_inv :: "EmitterConfig \<Rightarrow> ParticleSystem \<Rightarrow> bool" where
  "pool_inv cfg s = (config s = cfg \<and> int (length (particles s)) = maxParticles cfg)"

text \<open>What the emission loop leaves in the accumulator.\<close>

definition drain :: "float \<Rightarrow> float" where
  "drain a = (if a \<ge> 1 then a - of_int \<lfloor>a\<rfloor> else a)"


text \<open>The six indices \<open>createSphere\<close> gives one cell of the grid.\<close>

definition sphere_cell :: "uint32 \<Rightarrow> uint32 \<Rightarrow> uint32 \<Rightarrow> uint32 list" where
  "sphere_cell segs ring segment =
     (let current = ring * (segs + 1) + segment; next = current + segs + 1
      in [current, next, current + 1, current + 1, next, next + 1])"

text \<open>The vertices and indices of a cylinder, written out: two side rings, the top cap
  (centre, then ring), the bottom cap (centre, then ring); the side quads, the top fan and
  the bottom fan.\<close>

definition cylinder_vertices :: "float \<Rightarrow> float \<Rightarrow> uint32 \<Rightarrow> vec3 \<Rightarrow> Vertex list" where
  "cylinder_vertices radius h segs color =
     (let halfHeight = h * (5/10); ring = map of_nat [0..<Suc (unat segs)]
      in map (side_vertex radius (- halfHeight) 0 segs color) ring
       @ map (side_vertex radius halfHeight 1 segs color) ring
       @ [\<lparr>v_position = vec3 0 halfHeight 0, v_normal = vec3 0 1 0,
            v_texCoord = vec2 (5/10) (5/10), v_color = color\<rparr>]
       @ map (cap_vertex radius halfHeight 1 segs color) ring
       @ [\<lparr>v_position = vec3 0 (- halfHeight) 0, v_normal = vec3 0 (-1) 0,
            v_texCoord = vec2 (5/10) (5/10), v_color = color\<rparr>]
       @ map (cap_vertex radius (- halfHeight) (-1) segs color) ring)"

definition cylinder_indices :: "uint32 \<Rightarrow> uint32 list" where
  "cylinder_indices segs =
     (let topCenterIndex = of_nat (2 * (unat segs + 1));
          bottomCenterIndex = of_nat (3 * unat segs + 4)
      in concat (map (\<lambda>seg. [seg, seg + 1, seg + segs + 1, seg + segs + 1, seg + 1, seg + segs + 1 + 1])
                     (map of_nat [0..<unat segs]))
       @ concat (map (\<lambda>seg. [topCenterIndex, topCenterIndex + 1 + seg + 1, topCenterIndex + 1 + seg])
                     (map of_nat [0..<unat segs]))
       @ concat (map (\<lambda>seg. [bottomCenterIndex, bottomCenterIndex + 1 + seg, bottomCenterIndex + 1 + seg + 1])
                     (map of_nat [0..<unat segs])))"

text \<open>The invariant of a mesh: every index is below the vertex count.\<close>

definition indices_valid :: "Vertex list \<Rightarrow> uint32 list \<Rightarrow> bool" where
  "indices_valid vs inds = (\<forall>idx \<in> set inds. unat idx < length vs)"

definition mesh_valid :: "Mesh \<Rightarrow> bool" where
  "mesh_valid m = (\<forall>idx \<in> set (m_indices m). unat idx < length (m_vertices m))"

text \<open>Appending a part to the combined buffers: its vertices as they are, its indices
  moved up by the number of vertices the combined buffer holds at that moment (as a
  \<open>uint32_t\<close>).\<close>

definition append_rebased :: "Vertex list \<times> uint32 list \<Rightarrow> Mesh \<Rightarrow> Vertex list \<times> uint32 list" where
  "append_rebased acc arm =
     (fst acc @ m_vertices arm,
      snd acc @ map (\<lambda>idx. idx + of_nat (length (fst acc))) (m_indices arm))"

text \<open>The trunk cylinder and the \<open>i\<close>-th arm of a cactus, with the arguments
  \<open>generateMesh\<close> passes.\<close>

definition trunk_of :: "Cactus \<Rightarrow> Mesh option" where
  "trunk_of c =
     createCylinder (trunkRadius (m_config c) * m_growthFactor c)
       (height (m_config c) * m_growthFactor c) (segments (m_config c)) (c_color (m_config c))"

definition arm_at :: "('m, 'n) GLM \<Rightarrow> Cactus \<Rightarrow> float \<Rightarrow> int \<Rightarrow> Mesh option" where
  "arm_at G c actualHeight i =
     generateArm G c (actualHeight * armHeight (m_config c))
       ((real_of_int i / real_of_int (numArms (m_config c))) * (2 * pi) + pi * (25/100))
       (actualHeight * (4/10))"

text \<open>A trivial instance of the matrix functions, for the examples: the matrices carry
  nothing and vectors pass unchanged.\<close>

definition G0 :: "(unit, unit) GLM" where
  "G0 = \<lparr>glm_identity = (), glm_translate = (\<lambda>m v. ()), glm_rotate = (\<lambda>m a v. ()),
         glm_transform = (\<lambda>m v. v), glm_mat3 = (\<lambda>m. ()), glm_inverse = (\<lambda>n. ()),
         glm_transpose = (\<lambda>n. ()), glm_mul3 = (\<lambda>n v. v), glm_normalize = (\<lambda>v. v)\<rparr>"

text \<open>The systems of the examples: a pool of one slot fed one particle per second, a
  stopped system holding one alive and one dead particle, an active one without emission
  holding two alive particles, one of them in its last half second, and an active one whose
  only slot is alive.\<close>

definition cfgA :: EmitterConfig where
  "cfgA = EmitterConfig_default\<lparr>maxParticles := 1, emissionRate := 1\<rparr>"

definition sA :: ParticleSystem where
  "sA = (ParticleSystem_new (sconst (1/2)))
          \<lparr>config := cfgA, particles := [Particle_zero], active := True\<rparr>"

definition pB :: Particle where
  "pB = \<lparr>p_position = vec3 0 0 0, p_velocity = vec3 0 4 0, p_color = vec4 1 1 1 1,
          life = 2, maxLife = 4, p_size = 1\<rparr>"

definition sB :: ParticleSystem where
  "sB = (ParticleSystem_new (sconst 0))
          \<lparr>config := EmitterConfig_default\<lparr>gravity := vec3 0 (-2) 0, drag := 1/2\<rparr>,
           particles := [pB, Particle_zero]\<rparr>"

definition sD :: ParticleSystem where
  "sD = (ParticleSystem_new (sconst 0))
          \<lparr>config := EmitterConfig_default\<lparr>maxParticles := 2, emissionRate := 0\<rparr>,
           particles := [pB\<lparr>life := 1/2\<rparr>, pB], active := True\<rparr>"

definition one_alive :: ParticleSystem where
  "one_alive = (ParticleSystem_new (sconst 0))
     \<lparr>particles := [Particle_zero\<lparr>life := 1, maxLife := 1\<rparr>], active := True\<rparr>"

text \<open>The particles of the examples over the IEEE values: one with \<open>maxLife = 0\<close>, one
  just born, one at a quarter of its life left, and one with an infinite life.\<close>

definition p_zero_maxLife :: Particle_ieee where
  "p_zero_maxLife = \<lparr>position_ieee = vec3 0 0 0, velocity_ieee = vec3 0 0 0,
     color_ieee = vec4 1 1 1 1, life_ieee = Finite 5, maxLife_ieee = Finite 0, size_ieee = 1\<rparr>"

definition p_born :: Particle_ieee where
  "p_born = \<lparr>position_ieee = vec3 0 0 0, velocity_ieee = vec3 0 0 0,
     color_ieee = vec4 1 1 1 1, life_ieee = Finite 2, maxLife_ieee = Finite 2, size_ieee = 1\<rparr>"

definition p_quarter :: Particle_ieee where
  "p_quarter = \<lparr>position_ieee = vec3 0 0 0, velocity_ieee = vec3 0 0 0,
     color_ieee = vec4 1 1 1 1, life_ieee = Finite 1, maxLife_ieee = Finite 4, size_ieee = 1\<rparr>"

definition p_immortal :: Particle_ieee where
  "p_immortal = \<lparr>position_ieee = vec3 0 0 0, velocity_ieee = vec3 0 0 0,
     color_ieee = vec4 1 1 1 1, life_ieee = PosInf, maxLife_ieee = PosInf, size_ieee = 1\<rparr>"

section \<open>Words and lists\<close>

lemma upt_Suc_shift: "map f [0..<Suc n] = f 0 # map (\<lambda>k. f (Suc k)) [0..<n]"
proof -
  have "[0..<Suc n] = 0 # map Suc [0..<n]"
    by (simp add: upt_conv_Cons map_Suc_upt del: upt_Suc)
  then show ?thesis by (simp add: comp_def del: upt_Suc)
qed

lemma unat_of_nat_le32: "unat (of_nat n :: uint32) \<le> n"
  by (simp add: unat_of_nat)

lemma unat_add_le: "unat (a + b :: uint32) \<le> unat a + unat b"
  by (simp add: unat_word_ariths)

lemma length_concat_const:
  "(\<And>x. x \<in> set xs \<Longrightarrow> length (f x) = c) \<Longrightarrow> length (concat (map f xs)) = c * length xs"
  by (induction xs) auto

lemma unat_mult_le: "unat (a * b :: uint32) \<le> unat a * unat b"
  by (simp add: unat_word_ariths)

lemma unat_add3_le: "unat (a + b + c :: uint32) \<le> unat a + unat b + unat c"
  using unat_add_le [of "a + b" c] unat_add_le [of a b] by linarith

lemma unat_add4_le: "unat (a + b + c + d :: uint32) \<le> unat a + unat b + unat c + unat d"
  using unat_add_le [of "a + b + c" d] unat_add3_le [of a b c] by linarith

lemma unat_inc: "unat (i::uint32) < 4294967295 \<Longrightarrow> unat (i + 1) = Suc (unat i)"
  using unat_add_lem [of i 1] by simp

lemma fold_push: "fold (\<lambda>i acc. acc @ h i) xs acc = acc @ concat (map h xs)"
  by (induction xs arbitrary: acc) simp_all

lemma concat_map_upt_elem:
  assumes "x \<in> set (concat (map h (map of_nat [0..<n])))"
  obtains k where "k < n" and "x \<in> set (h (of_nat k))"
  using assms by auto

section \<open>Particle age\<close>

text \<open>The guard decides the value also for a negative \<open>maxLife\<close>, where the quotient
  would give something else.\<close>

lemma getAge_nonpositive_maxLife: "maxLife p \<le> 0 \<Longrightarrow> getAge p = 1"
  by (simp add: getAge_def)

text \<open>On finite values the two embeddings of \<open>Particle\<close> agree.\<close>

lemma getAge_ieee_finite: "getAge_ieee (Particle_to_ieee p) = Finite (getAge p)"
  by (simp add: getAge_ieee_def getAge_def Particle_to_ieee_def minus_ieee_def)

lemma isAlive_ieee_finite: "isAlive_ieee (Particle_to_ieee p) = isAlive p"
  by (simp add: isAlive_ieee_def isAlive_def Particle_to_ieee_def)

text \<open>A quotient by zero is an infinity or NaN, whatever the dividend, and so is 1 minus
  it.\<close>

lemma quotient_by_zero: "Finite 1 - x / Finite 0 \<noteq> Finite 1"
  by (cases x) (simp_all add: minus_ieee_def)

text \<open>
  C6, as amended. For every particle, the infinities and NaN included, \<open>getAge\<close> is exactly
  1 when \<open>maxLife = 0\<close>: the else branch is taken, and the quotient \<open>life / maxLife\<close>,
  with which \<open>1 - life / maxLife\<close> is infinite or NaN and never 1, is not. \<open>getAge\<close> is
  exactly 0 when \<open>maxLife > 0\<close> is finite and \<open>life = maxLife\<close>, and it is
  \<open>1 - life / maxLife\<close> whenever \<open>maxLife > 0\<close>.
\<close>

theorem getAge_ieee_boundary:
  "(maxLife_ieee p = Finite 0 \<longrightarrow>
      getAge_ieee p = Finite 1 \<and> Finite 1 - life_ieee p / maxLife_ieee p \<noteq> Finite 1) \<and>
   (Finite 0 < maxLife_ieee p \<and> maxLife_ieee p \<noteq> PosInf \<and> life_ieee p = maxLife_ieee p \<longrightarrow>
      getAge_ieee p = Finite 0) \<and>
   (Finite 0 < maxLife_ieee p \<longrightarrow> getAge_ieee p = Finite 1 - life_ieee p / maxLife_ieee p)"
proof (intro conjI impI)
  assume "maxLife_ieee p = Finite 0"
  then show "getAge_ieee p = Finite 1" by (simp add: getAge_ieee_def)
next
  assume "maxLife_ieee p = Finite 0"
  then show "Finite 1 - life_ieee p / maxLife_ieee p \<noteq> Finite 1"
    by (simp add: quotient_by_zero)
next
  assume a: "Finite 0 < maxLife_ieee p \<and> maxLife_ieee p \<noteq> PosInf \<and> life_ieee p = maxLife_ieee p"
  then obtain m where m: "maxLife_ieee p = Finite m" "0 < m"
    by (cases "maxLife_ieee p") simp_all
  with a show "getAge_ieee p = Finite 0"
    by (simp add: getAge_ieee_def minus_ieee_def)
next
  assume "Finite 0 < maxLife_ieee p"
  then show "getAge_ieee p = Finite 1 - life_ieee p / maxLife_ieee p"
    by (simp add: getAge_ieee_def)
qed

theorem getAge_ieee_boundary_witness:
  "maxLife_ieee p_zero_maxLife = Finite 0 \<and> getAge_ieee p_zero_maxLife = Finite 1 \<and>
   Finite 1 - life_ieee p_zero_maxLife / maxLife_ieee p_zero_maxLife = NegInf \<and>
   Finite 0 < maxLife_ieee p_born \<and> life_ieee p_born = maxLife_ieee p_born \<and>
   getAge_ieee p_born = Finite 0 \<and>
   Finite 0 < maxLife_ieee p_quarter \<and> getAge_ieee p_quarter = Finite (3/4)"
  using getAge_ieee_boundary [of p_zero_maxLife] getAge_ieee_boundary [of p_born]
    getAge_ieee_boundary [of p_quarter]
  by (simp add: p_zero_maxLife_def p_born_def p_quarter_def minus_ieee_def)

text \<open>C6 as stated fails: a particle with \<open>life = maxLife = +infinity\<close> has
  \<open>maxLife > 0\<close> and \<open>life = maxLife\<close>, and its age is NaN, not 0.\<close>

theorem getAge_infinite_life_counterexample:
  "Finite 0 < maxLife_ieee p_immortal \<and> life_ieee p_immortal = maxLife_ieee p_immortal \<and>
   getAge_ieee p_immortal = NaN \<and> getAge_ieee p_immortal \<noteq> Finite 0"
  by (simp add: p_immortal_def getAge_ieee_def minus_ieee_def)

section \<open>Growth\<close>

lemma clamp_bounds: "lo \<le> hi \<Longrightarrow> lo \<le> clamp x lo hi \<and> clamp x lo hi \<le> hi"
  by (simp add: clamp_def)

lemma grow_factor: "m_growthFactor (grow x c) = clamp (m_growthFactor c + x) (1/10) 4"
  by (simp add: grow_def)

lemma grow_range: "1/10 \<le> m_growthFactor (grow x c) \<and> m_growthFactor (grow x c) \<le> 4"
  using clamp_bounds [of "1/10" 4 "m_growthFactor c + x"] by (simp add: grow_factor)

text \<open>On finite values the two embeddings of \<open>grow\<close> agree.\<close>

lemma clamp_ieee_finite:
  "clamp_ieee (Finite a) (Finite (1/10)) (Finite 4) = Finite (clamp a (1/10) 4)"
  by (simp add: clamp_ieee_def max_ieee_def min_ieee_def clamp_def max_def min_def)

lemma grow_ieee_finite: "grow_ieee (Finite a) (Cactus_to_ieee c) = Cactus_to_ieee (grow a c)"
  by (simp add: grow_ieee_def grow_def Cactus_to_ieee_def clamp_ieee_def clamp_def
      max_ieee_def min_ieee_def Let_def max_def min_def)

text \<open>A finite growth factor stays finite and comes into the range with any amount that
  is not NaN; an infinite amount takes it to a bound.\<close>

lemma grow_ieee_range:
  assumes "growthFactor_ieee c = Finite g" and "x \<noteq> NaN"
  shows "\<exists>g'. growthFactor_ieee (grow_ieee x c) = Finite g' \<and> 1/10 \<le> g' \<and> g' \<le> 4"
proof (cases x)
  case (Finite a)
  then show ?thesis
    using assms(1) clamp_bounds [of "1/10" 4 "g + a"]
    by (simp add: grow_ieee_def clamp_ieee_finite)
next
  case PosInf
  then have "growthFactor_ieee (grow_ieee x c) = Finite 4" using assms(1)
    by (simp add: grow_ieee_def clamp_ieee_def max_ieee_def min_ieee_def)
  then show ?thesis by simp
next
  case NegInf
  then have "growthFactor_ieee (grow_ieee x c) = Finite (1/10)" using assms(1)
    by (simp add: grow_ieee_def clamp_ieee_def max_ieee_def min_ieee_def)
  then show ?thesis by (intro exI [of _ "1/10"]) simp
next
  case NaN
  with assms(2) show ?thesis by simp
qed

lemma grow_all_ieee_range:
  assumes "growthFactor_ieee c = Finite g" and "NaN \<notin> set xs"
  shows "\<exists>g'. growthFactor_ieee (grow_all_ieee xs c) = Finite g' \<and>
           (xs \<noteq> [] \<longrightarrow> 1/10 \<le> g' \<and> g' \<le> 4)"
  using assms
proof (induction xs arbitrary: c g)
  case Nil
  then show ?case by simp
next
  case (Cons x xs)
  from Cons.prems have x: "x \<noteq> NaN" and xs: "NaN \<notin> set xs" by auto
  from grow_ieee_range [OF Cons.prems(1) x] obtain g1 where
    g1: "growthFactor_ieee (grow_ieee x c) = Finite g1" "1/10 \<le> g1" "g1 \<le> 4" by blast
  from Cons.IH [OF g1(1) xs] obtain g' where
    g': "growthFactor_ieee (grow_all_ieee xs (grow_ieee x c)) = Finite g'"
      "xs \<noteq> [] \<longrightarrow> 1/10 \<le> g' \<and> g' \<le> 4" by blast
  show ?case
  proof (cases xs)
    case Nil
    then show ?thesis using g1 by simp
  next
    case (Cons y ys)
    then show ?thesis using g' by simp
  qed
qed

text \<open>Once the growth factor is NaN, no \<open>grow\<close> changes it.\<close>

lemma grow_ieee_NaN_stays:
  "growthFactor_ieee c = NaN \<Longrightarrow> growthFactor_ieee (grow_ieee x c) = NaN"
  by (simp add: grow_ieee_def clamp_ieee_def max_ieee_def min_ieee_def)

text \<open>
  C7, as amended. Starting from a freshly constructed Cactus (growthFactor 1), after any
  sequence of \<open>grow\<close> calls whose amounts are not NaN (they may be infinite) the growth
  factor lies in [0.1, 4.0]; each call \<open>grow x\<close>, for every \<open>x\<close>, sets the growth factor
  to \<open>clamp (previous + x) 0.1 4.0\<close> and changes nothing else: the configuration and the
  burning flag stay as they were (a Cactus stores no geometry).
\<close>

theorem grow_ieee_clamp:
  "(NaN \<notin> set xs \<longrightarrow>
      Finite (1/10) \<le> growthFactor_ieee (grow_all_ieee xs (Cactus_ieee_new cfg)) \<and>
      growthFactor_ieee (grow_all_ieee xs (Cactus_ieee_new cfg)) \<le> Finite 4) \<and>
   grow_ieee x c =
     c\<lparr>growthFactor_ieee := clamp_ieee (growthFactor_ieee c + x) (Finite (1/10)) (Finite 4)\<rparr>"
proof (intro conjI impI)
  assume n: "NaN \<notin> set xs"
  have "growthFactor_ieee (Cactus_ieee_new cfg) = Finite 1" by (simp add: Cactus_ieee_new_def)
  from grow_all_ieee_range [OF this n] obtain g' where
    g': "growthFactor_ieee (grow_all_ieee xs (Cactus_ieee_new cfg)) = Finite g'"
      "xs \<noteq> [] \<longrightarrow> 1/10 \<le> g' \<and> g' \<le> 4" by blast
  have r: "1/10 \<le> g' \<and> g' \<le> 4"
  proof (cases xs)
    case Nil
    then show ?thesis using g'(1) by (simp add: Cactus_ieee_new_def)
  next
    case (Cons y ys)
    then show ?thesis using g'(2) by simp
  qed
  show "Finite (1/10) \<le> growthFactor_ieee (grow_all_ieee xs (Cactus_ieee_new cfg))"
    using g'(1) r by (auto simp: less_eq_ieee_def)
  show "growthFactor_ieee (grow_all_ieee xs (Cactus_ieee_new cfg)) \<le> Finite 4"
    using g'(1) r by (auto simp: less_eq_ieee_def)
next
  show "grow_ieee x c =
     c\<lparr>growthFactor_ieee := clamp_ieee (growthFactor_ieee c + x) (Finite (1/10)) (Finite 4)\<rparr>"
    by (simp add: grow_ieee_def)
qed

theorem grow_ieee_clamp_witness:
  "NaN \<notin> set [Finite 5, NegInf, Finite (3/10), PosInf, Finite (-1)] \<and>
   growthFactor_ieee (grow_all_ieee [Finite 5, NegInf, Finite (3/10), PosInf, Finite (-1)]
      (Cactus_ieee_new Config_default)) = Finite 3 \<and>
   growthFactor_ieee (grow_all_ieee [Finite 5, NegInf, Finite (3/10)]
      (Cactus_ieee_new Config_default)) = Finite (4/10) \<and>
   growthFactor_ieee (grow_ieee (Finite 5) (Cactus_ieee_new Config_default)) = Finite 4 \<and>
   config_ieee (grow_ieee (Finite 5) (Cactus_ieee_new Config_default)) = Config_default \<and>
   isBurning_ieee (grow_ieee (Finite 5) (Cactus_ieee_new Config_default)) = False"
  using grow_ieee_clamp [of "[Finite 5, NegInf, Finite (3/10), PosInf, Finite (-1)]" Config_default
          "Finite 5" "Cactus_ieee_new Config_default"]
  by (simp add: grow_ieee_def clamp_ieee_def max_ieee_def min_ieee_def Cactus_ieee_new_def)

text \<open>C7 as stated fails: \<open>grow\<close> with the amount NaN leaves the growth factor NaN, which
  is neither at least 0.1 nor at most 4.0, and a later \<open>grow\<close> keeps it.\<close>

theorem grow_NaN_counterexample:
  "growthFactor_ieee (grow_ieee NaN (Cactus_ieee_new Config_default)) = NaN \<and>
   \<not> Finite (1/10) \<le> growthFactor_ieee (grow_ieee NaN (Cactus_ieee_new Config_default)) \<and>
   \<not> growthFactor_ieee (grow_ieee NaN (Cactus_ieee_new Config_default)) \<le> Finite 4 \<and>
   growthFactor_ieee (grow_ieee (Finite 1) (grow_ieee NaN (Cactus_ieee_new Config_default))) = NaN"
  by (simp add: grow_ieee_def clamp_ieee_def max_ieee_def min_ieee_def Cactus_ieee_new_def
      less_eq_ieee_def)

section \<open>The emission loop\<close>

lemma emitParticle_scan_full:
  "\<forall>p\<in>set ps. isAlive p \<Longrightarrow> emitParticle_scan cfg ps g = (ps, g)"
  by (induction ps) auto

lemma emitParticle_full:
  "\<forall>p\<in>set (particles s). isAlive p \<Longrightarrow> emitParticle s = s"
  by (simp add: emitParticle_def emitParticle_scan_full)

lemma emitParticle_scan_length:
  "length (fst (emitParticle_scan cfg ps g)) = length ps"
  by (induction ps) (auto split: prod.splits)

lemma emitParticle_config: "config (emitParticle s) = config s"
  by (simp add: emitParticle_def split: prod.splits)

lemma emitParticle_active: "active (emitParticle s) = active s"
  by (simp add: emitParticle_def split: prod.splits)

lemma emitParticle_accumulator: "emissionAccumulator (emitParticle s) = emissionAccumulator s"
  by (simp add: emitParticle_def split: prod.splits)

lemma emitParticle_length: "length (particles (emitParticle s)) = length (particles s)"
  using emitParticle_scan_length [of "config s" "particles s" "rng s"]
  by (auto simp add: emitParticle_def split: prod.splits)

lemma update_emit_idle: "emissionAccumulator s < 1 \<Longrightarrow> update_emit s = s"
  by (simp add: update_emit.simps)

lemma update_emit_config: "config (update_emit s) = config s"
proof (induction s rule: update_emit.induct)
  case (1 s)
  show ?case
  proof (cases "1 \<le> emissionAccumulator s")
    case True
    then show ?thesis
      using "1.IH" [OF True refl] by (subst update_emit.simps) (simp add: Let_def emitParticle_config)
  next
    case False
    then show ?thesis by (subst update_emit.simps) simp
  qed
qed

lemma update_emit_active: "active (update_emit s) = active s"
proof (induction s rule: update_emit.induct)
  case (1 s)
  show ?case
  proof (cases "1 \<le> emissionAccumulator s")
    case True
    then show ?thesis
      using "1.IH" [OF True refl] by (subst update_emit.simps) (simp add: Let_def emitParticle_active)
  next
    case False
    then show ?thesis by (subst update_emit.simps) simp
  qed
qed

lemma update_emit_length: "length (particles (update_emit s)) = length (particles s)"
proof (induction s rule: update_emit.induct)
  case (1 s)
  show ?case
  proof (cases "1 \<le> emissionAccumulator s")
    case True
    then show ?thesis
      using "1.IH" [OF True refl] by (subst update_emit.simps) (simp add: Let_def emitParticle_length)
  next
    case False
    then show ?thesis by (subst update_emit.simps) simp
  qed
qed

lemma update_emit_accumulator_lt: "emissionAccumulator (update_emit s) < 1"
proof (induction s rule: update_emit.induct)
  case (1 s)
  show ?case
  proof (cases "1 \<le> emissionAccumulator s")
    case True
    then show ?thesis
      using "1.IH" [OF True refl] by (subst update_emit.simps) (simp add: Let_def)
  next
    case False
    then show ?thesis by (subst update_emit.simps) simp
  qed
qed

lemma update_emit_accumulator: "emissionAccumulator (update_emit s) = drain (emissionAccumulator s)"
proof (induction s rule: update_emit.induct)
  case (1 s)
  show ?case
  proof (cases "1 \<le> emissionAccumulator s")
    case True
    have "drain (emissionAccumulator s - 1) = drain (emissionAccumulator s)"
    proof (cases "2 \<le> emissionAccumulator s")
      case True
      have "\<lfloor>emissionAccumulator s - 1\<rfloor> = \<lfloor>emissionAccumulator s\<rfloor> - 1" by linarith
      then show ?thesis using True by (simp add: drain_def)
    next
      case False
      then have "\<lfloor>emissionAccumulator s\<rfloor> = 1" using True by linarith
      then show ?thesis using True False by (simp add: drain_def)
    qed
    then show ?thesis
      using "1.IH" [OF True refl] True
      by (subst update_emit.simps) (simp add: Let_def emitParticle_accumulator)
  next
    case False
    then show ?thesis by (subst update_emit.simps) (simp add: drain_def)
  qed
qed

lemma update_emit_full:
  "\<forall>p \<in> set (particles s). isAlive p \<Longrightarrow>
   update_emit s = s\<lparr>emissionAccumulator := drain (emissionAccumulator s)\<rparr>"
proof (induction s rule: update_emit.induct)
  case (1 s)
  show ?case
  proof (cases "1 \<le> emissionAccumulator s")
    case True
    have e: "emitParticle s = s" using "1.prems" by (rule emitParticle_full)
    have d: "drain (emissionAccumulator s - 1) = drain (emissionAccumulator s)"
      using update_emit_accumulator [of s] update_emit_accumulator [of "s\<lparr>emissionAccumulator := emissionAccumulator s - 1\<rparr>"]
        True e
      by (subst (asm) update_emit.simps) (simp add: Let_def)
    have "update_emit (s\<lparr>emissionAccumulator := emissionAccumulator s - 1\<rparr>)
        = s\<lparr>emissionAccumulator := drain (emissionAccumulator s)\<rparr>"
      using "1.IH" [OF True refl] "1.prems" e d by simp
    then show ?thesis using True e by (subst update_emit.simps) (simp add: Let_def)
  next
    case False
    then show ?thesis by (subst update_emit.simps) (simp add: drain_def)
  qed
qed

section \<open>The pool\<close>

lemma getAliveCount_filter: "getAliveCount s = int (length (filter isAlive (particles s)))"
proof -
  have "fold (\<lambda>p count. if isAlive p then count + 1 else count) ps k
        = k + int (length (filter isAlive ps))" for ps and k :: int
    by (induction ps arbitrary: k) auto
  then show ?thesis by (simp add: getAliveCount_def)
qed

lemma getAliveCount_le_length: "getAliveCount s \<le> int (length (particles s))"
  by (simp add: getAliveCount_filter)

lemma resize_length: "length (resize n ps) = n"
  by (simp add: resize_def)

lemma init_pool_Inr:
  "init_pool s = Inr s' \<Longrightarrow>
   0 \<le> maxParticles (config s) \<and> maxParticles (config s) * 6 \<le> INT_MAX \<and>
   s' = s\<lparr>particles := map (\<lambda>p. p\<lparr>life := 0\<rparr>) (resize (nat (maxParticles (config s))) (particles s)),
         active := True, systemTime := 0\<rparr>"
  by (auto simp: init_pool_def Let_def split: if_splits)

lemma init_pool_succeeds:
  "0 \<le> maxParticles (config s) \<Longrightarrow> maxParticles (config s) * 6 \<le> INT_MAX \<Longrightarrow>
   \<exists>s'. init_pool s = Inr s'"
  by (auto simp: init_pool_def Let_def INT_MAX_def)

lemma update_particle_dead: "\<not> isAlive p \<Longrightarrow> update_particle cfg dt p = p"
  by (simp add: update_particle_def)

lemma update_particle_alive_mono: "isAlive (update_particle cfg dt p) \<Longrightarrow> isAlive p"
  by (cases "isAlive p") (simp_all add: update_particle_def)

lemma filter_map_alive_le:
  "length (filter isAlive (map (update_particle cfg dt) ps)) \<le> length (filter isAlive ps)"
  by (induction ps) (auto dest: update_particle_alive_mono)

lemma update_begin_config: "config (update_begin dt s) = config s"
  by (simp add: update_begin_def Let_def update_emit_config)

lemma update_begin_length: "length (particles (update_begin dt s)) = length (particles s)"
  by (simp add: update_begin_def Let_def update_emit_length)

lemma update_begin_accumulator_lt:
  "emissionAccumulator s < 1 \<Longrightarrow> emissionAccumulator (update_begin dt s) < 1"
  by (simp add: update_begin_def Let_def update_emit_accumulator_lt)

lemma update_config: "config (update dt s) = config s"
  by (simp add: update_def Let_def update_begin_config)

lemma update_length: "length (particles (update dt s)) = length (particles s)"
  by (simp add: update_def Let_def update_begin_length)

lemma update_accumulator_lt:
  "emissionAccumulator s < 1 \<Longrightarrow> emissionAccumulator (update dt s) < 1"
  by (simp add: update_def Let_def update_begin_accumulator_lt)

lemma update_begin_no_emission:
  "emissionRate (config s) = 0 \<Longrightarrow> emissionAccumulator s < 1 \<Longrightarrow>
   particles (update_begin dt s) = particles s"
  by (simp add: update_begin_def Let_def update_emit_idle)

lemma update_alive_nonincreasing:
  assumes "emissionRate (config s) = 0" and "emissionAccumulator s < 1"
  shows "getAliveCount (update dt s) \<le> getAliveCount s"
proof (cases "\<not> active s \<and> getAliveCount s = 0")
  case True
  then show ?thesis by (simp add: update_def)
next
  case False
  then have "particles (update dt s)
      = map (update_particle (config s) dt) (particles s)"
    using assms by (auto simp add: update_def Let_def update_begin_no_emission update_begin_config)
  then show ?thesis
    using filter_map_alive_le [of "config s" dt "particles s"]
    by (simp add: getAliveCount_filter)
qed

lemma run_call_inv: "pool_inv cfg s \<Longrightarrow> pool_inv cfg (run_call c s)"
  by (cases c)
     (simp_all add: pool_inv_def update_config update_length start_def stop_def)

lemma run_calls_inv: "pool_inv cfg s \<Longrightarrow> pool_inv cfg (run_calls cs s)"
  by (induction cs arbitrary: s) (simp_all add: run_call_inv)

lemma run_call_accumulator_lt:
  "emissionAccumulator s < 1 \<Longrightarrow> emissionAccumulator (run_call c s) < 1"
  by (cases c) (simp_all add: update_accumulator_lt start_def stop_def)

lemma run_calls_accumulator_lt:
  "emissionAccumulator s < 1 \<Longrightarrow> emissionAccumulator (run_calls cs s) < 1"
  by (induction cs arbitrary: s) (simp_all add: run_call_accumulator_lt)

lemma init_inv:
  assumes "init cfg s = Inr s0"
  shows "pool_inv cfg s0 \<and> emissionAccumulator s0 = emissionAccumulator s"
proof -
  from assms have "init_pool (s\<lparr>config := cfg\<rparr>) = Inr s0" by (simp add: init_def)
  from init_pool_Inr [OF this] show ?thesis
    by (simp add: pool_inv_def resize_length)
qed

lemma initA: "init cfgA (ParticleSystem_new (sconst (1/2))) = Inr sA"
  by (simp add: init_def init_pool_def cfgA_def sA_def ParticleSystem_new_def Let_def
      EmitterConfig_default_def INT_MAX_def resize_def Particle_zero_def)




lemma updA_twice: "getAliveCount (run_calls [Update (1/2), Update (1/2)] sA) = 1"
  by (simp add: update_def update_begin_def sA_def cfgA_def ParticleSystem_new_def Let_def
      EmitterConfig_default_def Particle_zero_def update_emit.simps update_particle_def isAlive_def
      getAliveCount_def emitParticle_def emitParticle_fill_def randomRange_def getAge_def)

lemma aliveD: "getAliveCount sD = 2"
  by (simp add: sD_def pB_def ParticleSystem_new_def getAliveCount_filter isAlive_def)

lemma updD: "getAliveCount (update 1 sD) = 1"
  by (simp add: update_def update_begin_def sD_def pB_def ParticleSystem_new_def Let_def
      EmitterConfig_default_def update_emit.simps update_particle_def isAlive_def
      getAliveCount_def getAge_def)

text \<open>
  C1. After a successful \<open>init cfg\<close> and any sequence of \<open>update\<close>, \<open>start\<close> and
  \<open>stop\<close> calls the number of alive particles is at most \<open>maxParticles cfg\<close>. In every
  state whose configuration has \<open>emissionRate = 0\<close> and whose accumulator is below 1,
  \<open>update\<close> leaves the number of alive particles at most what it was. The states that
  \<open>init\<close> and the calls reach have the configuration \<open>cfg\<close>, and an accumulator below 1
  if the system had one before \<open>init\<close> (a new system has 0).
\<close>

theorem pool_conservation:
  "(init cfg s = Inr s0 \<longrightarrow> getAliveCount (run_calls cs s0) \<le> maxParticles cfg) \<and>
   (init cfg s = Inr s0 \<and> emissionAccumulator s < 1 \<longrightarrow>
      config (run_calls cs s0) = cfg \<and> emissionAccumulator (run_calls cs s0) < 1) \<and>
   (emissionRate (config t) = 0 \<and> emissionAccumulator t < 1 \<longrightarrow>
      getAliveCount (update deltaTime t) \<le> getAliveCount t)"
proof (intro conjI impI)
  assume i: "init cfg s = Inr s0"
  have "pool_inv cfg (run_calls cs s0)"
    using init_inv [OF i] by (simp add: run_calls_inv)
  then show "getAliveCount (run_calls cs s0) \<le> maxParticles cfg"
    using getAliveCount_le_length [of "run_calls cs s0"] by (simp add: pool_inv_def)
next
  assume a: "init cfg s = Inr s0 \<and> emissionAccumulator s < 1"
  then have "pool_inv cfg (run_calls cs s0)"
    using init_inv [of cfg s s0] by (simp add: run_calls_inv)
  then show "config (run_calls cs s0) = cfg" by (simp add: pool_inv_def)
next
  assume a: "init cfg s = Inr s0 \<and> emissionAccumulator s < 1"
  then have "emissionAccumulator s0 < 1" using init_inv [of cfg s s0] by simp
  then show "emissionAccumulator (run_calls cs s0) < 1" by (rule run_calls_accumulator_lt)
next
  assume "emissionRate (config t) = 0 \<and> emissionAccumulator t < 1"
  then show "getAliveCount (update deltaTime t) \<le> getAliveCount t"
    by (simp add: update_alive_nonincreasing)
qed

theorem pool_conservation_witness:
  "init cfgA (ParticleSystem_new (sconst (1/2))) = Inr sA \<and>
   emissionAccumulator (ParticleSystem_new (sconst (1/2))) < 1 \<and>
   maxParticles cfgA = 1 \<and>
   getAliveCount (run_calls [Update (1/2), Update (1/2)] sA) = 1 \<and>
   config (run_calls [Update (1/2), Update (1/2)] sA) = cfgA \<and>
   emissionAccumulator (run_calls [Update (1/2), Update (1/2)] sA) < 1 \<and>
   emissionRate (config sD) = 0 \<and> emissionAccumulator sD < 1 \<and>
   getAliveCount sD = 2 \<and> getAliveCount (update 1 sD) = 1"
  using pool_conservation [of cfgA "ParticleSystem_new (sconst (1/2))" sA
          "[Update (1/2), Update (1/2)]" sD 1]
        initA updA_twice aliveD updD
  by (simp add: ParticleSystem_new_def cfgA_def sD_def EmitterConfig_default_def)

section \<open>The physics step\<close>

lemma update_particle_integrate:
  "update_particle cfg dt p = (if isAlive p then integrate cfg dt p else p)"
  by (simp add: update_particle_def integrate_def Let_def getAge_def)

text \<open>
  C2. \<open>update\<close> returns at once when the system is inactive and no particle is alive.
  Otherwise every particle that is alive when the per-particle loop starts (after the
  emission, \<open>update_begin\<close>) is replaced by \<open>integrate\<close> of it: the velocity becomes
  \<open>(velocity + gravity * dt) * (1 - drag * dt)\<close>, the position advances by the new velocity
  times \<open>dt\<close>, the life drops by \<open>dt\<close>, and colour and size are mixed at the age of the
  new life. Dead particles stay as they are.
\<close>

theorem update_integration:
  "(\<not> active s \<and> getAliveCount s = 0 \<longrightarrow> update dt s = s) \<and>
   (active s \<or> getAliveCount s \<noteq> 0 \<longrightarrow>
      particles (update dt s) =
        map (\<lambda>p. if isAlive p then integrate (config s) dt p else p)
            (particles (update_begin dt s)))"
  by (auto simp add: update_def Let_def update_begin_config update_particle_integrate)

theorem update_integration_witness:
  "getAliveCount sB \<noteq> 0 \<and>
   particles (update 1 sB) =
     [\<lparr>p_position = vec3 0 1 0, p_velocity = vec3 0 1 0, p_color = vec4 1 1 1 (1/4),
       life = 1, maxLife = 4, p_size = 13/40\<rparr>,
      Particle_zero]"
  using update_integration [of sB 1]
  by (simp add: sB_def pB_def ParticleSystem_new_def Particle_zero_def getAliveCount_def
      isAlive_def update_begin_def EmitterConfig_default_def integrate_def Let_def mix_def)

section \<open>The billboards\<close>

lemma generateVertices_loop_closed:
  "generateVertices_loop cr cu ps (vs, is, vi) =
     (vs @ concat (map (billboard cr cu) (filter isAlive ps)),
      is @ concat (map (\<lambda>k. quad_indices (vi + of_nat (4 * k))) [0..<length (filter isAlive ps)]),
      vi + of_nat (4 * length (filter isAlive ps)))"
proof (induction ps arbitrary: vs "is" vi)
  case Nil
  then show ?case by simp
next
  case (Cons p ps)
  show ?case
  proof (cases "isAlive p")
    case False
    then show ?thesis using Cons.IH by simp
  next
    case True
    have shift: "(\<lambda>k. quad_indices (vi + of_nat (4 * Suc k)))
               = (\<lambda>k. quad_indices (vi + 4 + of_nat (4 * k)))"
      by (rule ext) (simp add: algebra_simps)
    show ?thesis
      using True
      by (simp add: Cons.IH Let_def billboard_def upt_Suc_shift shift del: upt_Suc)
         (simp add: quad_indices_def ac_simps)
  qed
qed

text \<open>
  C3. After \<open>generateVertices cameraRight cameraUp\<close> the vertex buffer is, for the alive
  particles in pool order, the four corners \<open>billboard\<close> of each (position - right - up,
  + right - up, + right + up, - right + up, with texCoords (0,0), (1,0), (1,1), (0,1) and
  the particle's colour and size); the index buffer is, for the k-th alive particle, the
  triangles (b, b+1, b+2) and (b, b+2, b+3) with b = 4k as a \<open>uint32_t\<close>. There are
  4 vertices and 6 indices per alive particle, every index is below the vertex count, and
  the buffers a system held before the call do not matter.
\<close>

theorem generateVertices_billboards:
  "vertices (generateVertices cr cu s) = concat (map (billboard cr cu) (filter isAlive (particles s))) \<and>
   indices (generateVertices cr cu s) =
     concat (map (\<lambda>k. quad_indices (of_nat (4 * k))) [0..<length (filter isAlive (particles s))]) \<and>
   int (length (filter isAlive (particles s))) = getAliveCount s \<and>
   int (length (vertices (generateVertices cr cu s))) = 4 * getAliveCount s \<and>
   int (length (indices (generateVertices cr cu s))) = 6 * getAliveCount s \<and>
   (\<forall>i \<in> set (indices (generateVertices cr cu s)).
        unat i < length (vertices (generateVertices cr cu s))) \<and>
   generateVertices cr cu (s\<lparr>vertices := vs0, indices := is0\<rparr>) = generateVertices cr cu s"
proof -
  let ?n = "length (filter isAlive (particles s))"
  have V: "vertices (generateVertices cr cu s) = concat (map (billboard cr cu) (filter isAlive (particles s)))"
    by (simp add: generateVertices_def generateVertices_loop_closed)
  have I: "indices (generateVertices cr cu s) =
     concat (map (\<lambda>k. quad_indices (of_nat (4 * k))) [0..<?n])"
    by (simp add: generateVertices_def generateVertices_loop_closed)
  have LV: "length (vertices (generateVertices cr cu s)) = 4 * ?n"
    unfolding V by (rule length_concat_const) (simp add: billboard_def Let_def)
  have LI: "length (indices (generateVertices cr cu s)) = 6 * ?n"
    unfolding I using length_concat_const [of "[0..<?n]" "\<lambda>k. quad_indices (of_nat (4 * k))" 6]
    by (simp add: quad_indices_def)
  have B: "unat i < 4 * ?n" if "i \<in> set (indices (generateVertices cr cu s))" for i
  proof -
    from that obtain k where k: "k < ?n" and i: "i \<in> set (quad_indices (of_nat (4 * k)))"
      unfolding I by auto
    then obtain j :: nat where j: "j < 4" and ij: "i = of_nat (4 * k) + of_nat j"
      unfolding quad_indices_def
      by (auto intro: that [of 0] that [of 1] that [of 2] that [of 3])
    have "unat i \<le> unat (of_nat (4 * k) :: uint32) + unat (of_nat j :: uint32)"
      unfolding ij by (rule unat_add_le)
    also have "\<dots> \<le> 4 * k + j"
      using unat_of_nat_le32 [of "4 * k"] unat_of_nat_le32 [of j] by linarith
    also have "\<dots> < 4 * ?n" using k j by linarith
    finally show ?thesis .
  qed
  have R: "generateVertices cr cu (s\<lparr>vertices := vs0, indices := is0\<rparr>) = generateVertices cr cu s"
    by (simp add: generateVertices_def split: prod.splits)
  show ?thesis
    using V I LV LI B R by (simp add: getAliveCount_filter)
qed

theorem generateVertices_billboards_witness:
  "indices (generateVertices (vec3 1 0 0) (vec3 0 1 0) (sB\<lparr>particles := [pB, Particle_zero, pB]\<rparr>))
     = [0, 1, 2, 0, 2, 3, 4, 5, 6, 4, 6, 7] \<and>
   map pv_position
     (vertices (generateVertices (vec3 1 0 0) (vec3 0 1 0) (sB\<lparr>particles := [pB, Particle_zero, pB]\<rparr>)))
     = [vec3 (-1) (-1) 0, vec3 1 (-1) 0, vec3 1 1 0, vec3 (-1) 1 0,
        vec3 (-1) (-1) 0, vec3 1 (-1) 0, vec3 1 1 0, vec3 (-1) 1 0] \<and>
   getAliveCount (sB\<lparr>particles := [pB, Particle_zero, pB]\<rparr>) = 2"
  using generateVertices_billboards [of "vec3 1 0 0" "vec3 0 1 0"
          "sB\<lparr>particles := [pB, Particle_zero, pB]\<rparr>" "[]" "[]"]
  by (simp add: sB_def pB_def Particle_zero_def isAlive_def billboard_def quad_indices_def
      Let_def upt_Suc_shift del: upt_Suc)

section \<open>Re-initialisation\<close>




section \<open>Counting loops\<close>

lemma for_lt_fold:
  "for_lt i n body s = fold body (map of_nat [unat i..<unat n]) s"
proof (induction i n body s rule: for_lt.induct)
  case (1 i n body s)
  show ?case
  proof (cases "i < n")
    case True
    then have l: "unat i < unat n" by (simp add: word_less_nat_alt)
    have "unat n < 4294967296" using unsigned_less [of n] by simp
    then have u: "unat (i + 1) = Suc (unat i)" using l by (intro unat_inc) simp
    have "[unat i..<unat n] = unat i # [Suc (unat i)..<unat n]"
      using l by (simp add: upt_conv_Cons)
    then show ?thesis
      using "1.IH" [OF True] True u by (subst for_lt.simps) simp
  next
    case False
    then have "unat n \<le> unat i" by (simp add: word_less_nat_alt)
    then show ?thesis using False by (subst for_lt.simps) simp
  qed
qed

lemma for_le_fold:
  assumes n: "unat n < 4294967295" and body: "\<And>i s. body i s = Some (f i s)"
  shows "for_le i n body s = Some (fold f (map of_nat [unat i..<Suc (unat n)]) s)"
proof (induction "Suc (unat n) - unat i" arbitrary: i s)
  case 0
  then have "\<not> i \<le> n" by (simp add: word_le_nat_alt)
  moreover have "[unat i..<Suc (unat n)] = []" using 0 by simp
  ultimately show ?case by (subst for_le.simps) simp
next
  case (Suc k)
  then have le: "i \<le> n" by (simp add: word_le_nat_alt)
  then have u: "unat (i + 1) = Suc (unat i)" using n by (intro unat_inc) (simp add: word_le_nat_alt)
  have "k = Suc (unat n) - unat (i + 1)" using Suc.hyps(2) u by simp
  note IH = Suc.hyps(1) [OF this]
  have "[unat i..<Suc (unat n)] = unat i # [Suc (unat i)..<Suc (unat n)]"
    using le by (simp add: upt_conv_Cons word_le_nat_alt del: upt_Suc)
  then show ?case
    using le u by (subst for_le.simps) (simp add: body IH del: upt_Suc)
qed

lemma for_le_diverges_aux:
  "for_le i n body s = Some r \<Longrightarrow> n \<noteq> - 1"
proof (rule for_le.raw_induct [where P = "\<lambda>i n body s r. n \<noteq> - 1"])
  fix for_le' :: "uint32 \<Rightarrow> uint32 \<Rightarrow> (uint32 \<Rightarrow> 'a \<Rightarrow> 'a option) \<Rightarrow> 'a \<Rightarrow> 'a option"
    and i n body s r
  assume IH: "\<And>i n body s r. for_le' i n body s = Some r \<Longrightarrow> n \<noteq> - 1"
    and step: "(if i \<le> n then Option.bind (body i s) (for_le' (i + 1) n body) else Some s) = Some r"
  show "n \<noteq> - 1"
  proof
    assume n: "n = - 1"
    then have "i \<le> n" by simp
    with step obtain s' where "for_le' (i + 1) n body s' = Some r"
      by (auto simp: bind_eq_Some_conv)
    from IH [OF this] n show False by simp
  qed
next
  assume "for_le i n body s = Some r"
  then show "for_le i n body s = Some r" .
qed

lemma for_le_diverges: "for_le i 4294967295 body s = None"
proof (cases "for_le i 4294967295 body s")
  case None
  then show ?thesis .
next
  case (Some r)
  from for_le_diverges_aux [OF this] show ?thesis by simp
qed

lemma for_le_push:
  "unat n < 4294967295 \<Longrightarrow>
   for_le i n (\<lambda>j acc. Some (acc @ h j)) acc
     = Some (acc @ concat (map h (map of_nat [unat i..<Suc (unat n)])))"
  using for_le_fold [of n "\<lambda>j acc. Some (acc @ h j)" "\<lambda>j acc. acc @ h j" i acc]
  by (simp add: fold_push del: upt_Suc)

lemma for_lt_push:
  "for_lt i n (\<lambda>j acc. acc @ h j) = (\<lambda>acc. acc @ concat (map h (map of_nat [unat i..<unat n])))"
  by (rule ext) (simp add: for_lt_fold fold_push)

lemma for_le_push_ext:
  "unat n < 4294967295 \<Longrightarrow>
   for_le i n (\<lambda>j acc. Some (acc @ h j))
     = (\<lambda>acc. Some (acc @ concat (map h (map of_nat [unat i..<Suc (unat n)]))))"
  by (rule ext) (rule for_le_push)

lemma for_le_0_1:
  "(\<And>i s. body i s = Some (f i s)) \<Longrightarrow> for_le 0 1 body s = Some (f 1 (f 0 s))"
  using for_le_fold [of 1 body f 0 s] by (simp add: upt_conv_Cons)

section \<open>Meshes\<close>

lemma recalculateBounds_vertices [simp]: "m_vertices (recalculateBounds m) = m_vertices m"
proof -
  have *: "m_vertices (fold (\<lambda>vertex m. m\<lparr>m_minBounds := min3 (m_minBounds m) (v_position vertex),
                              m_maxBounds := max3 (m_maxBounds m) (v_position vertex)\<rparr>) vs m0)
        = m_vertices m0" for vs m0
    by (induction vs arbitrary: m0) simp_all
  show ?thesis by (simp add: recalculateBounds_def *)
qed

lemma recalculateBounds_indices [simp]: "m_indices (recalculateBounds m) = m_indices m"
proof -
  have *: "m_indices (fold (\<lambda>vertex m. m\<lparr>m_minBounds := min3 (m_minBounds m) (v_position vertex),
                              m_maxBounds := max3 (m_maxBounds m) (v_position vertex)\<rparr>) vs m0)
        = m_indices m0" for vs m0
    by (induction vs arbitrary: m0) simp_all
  show ?thesis by (simp add: recalculateBounds_def *)
qed

lemma Mesh_new_vertices [simp]: "m_vertices (Mesh_new vs inds) = vs"
  by (simp add: Mesh_new_def)

lemma Mesh_new_indices [simp]: "m_indices (Mesh_new vs inds) = inds"
  by (simp add: Mesh_new_def)

lemma mesh_valid_iff: "mesh_valid m = indices_valid (m_vertices m) (m_indices m)"
  by (simp add: mesh_valid_def indices_valid_def)

lemma indices_valid_rebase:
  assumes "indices_valid vs inds" and "indices_valid vs' inds'"
  shows "indices_valid (vs @ vs') (inds @ map (\<lambda>idx. idx + of_nat (length vs)) inds')"
proof -
  have "unat (idx + of_nat (length vs) :: uint32) < length vs + length vs'"
    if "idx \<in> set inds'" for idx
  proof -
    have "unat (idx + of_nat (length vs) :: uint32) \<le> unat idx + length vs"
      using unat_add_le [of idx "of_nat (length vs)"] unat_of_nat_le32 [of "length vs"]
      by linarith
    moreover have "unat idx < length vs'" using assms(2) that by (simp add: indices_valid_def)
    ultimately show ?thesis by linarith
  qed
  moreover have "unat idx < length vs + length vs'" if "idx \<in> set inds" for idx
    using assms(1) that by (fastforce simp: indices_valid_def)
  ultimately show ?thesis by (auto simp: indices_valid_def)
qed

lemma append_rebased_valid:
  assumes "indices_valid (fst acc) (snd acc)" and "mesh_valid arm"
  shows "indices_valid (fst (append_rebased acc arm)) (snd (append_rebased acc arm))"
  using indices_valid_rebase [OF assms(1) assms(2) [unfolded mesh_valid_iff]]
  by (simp add: append_rebased_def)

lemma foldl_append_rebased_valid:
  assumes "indices_valid (fst acc) (snd acc)" and "\<forall>arm \<in> set arms. mesh_valid arm"
  shows "indices_valid (fst (foldl append_rebased acc arms)) (snd (foldl append_rebased acc arms))"
  using assms
proof (induction arms arbitrary: acc)
  case Nil
  then show ?case by simp
next
  case (Cons arm arms)
  have "indices_valid (fst (append_rebased acc arm)) (snd (append_rebased acc arm))"
    using Cons.prems by (intro append_rebased_valid) simp_all
  from Cons.IH [OF this] Cons.prems(2) show ?case by simp
qed

lemma foldl_append_rebased_length:
  assumes "\<forall>arm \<in> set arms. length (m_vertices arm) = n"
  shows "length (fst (foldl append_rebased acc arms)) = length (fst acc) + n * length arms"
  using assms
  by (induction arms arbitrary: acc) (simp_all add: append_rebased_def)

lemma foldl_append_rebased_fst:
  "fst (foldl append_rebased acc arms) = fst acc @ concat (map m_vertices arms)"
  by (induction arms arbitrary: acc) (simp_all add: append_rebased_def)

section \<open>The sphere\<close>

lemma createSphere_closed:
  assumes "unat segs < 4294967295" and "unat rings < 4294967295"
  shows "case createSphere radius segs rings color of None \<Rightarrow> False
         | Some m \<Rightarrow>
             length (m_vertices m) = (unat rings + 1) * (unat segs + 1) \<and>
             m_indices m = concat (map (\<lambda>ring. concat (map (sphere_cell segs ring)
                                  (map of_nat [0..<unat segs])))
                        (map of_nat [0..<unat rings]))"
  unfolding createSphere_def using assms
  by (simp add: Let_def for_le_push for_le_push_ext for_lt_push sphere_cell_def length_concat comp_def
      sum_list_triv del: upt_Suc)

lemma sphere_cell_bound:
  assumes r: "r < R" and sg: "sg < unat segs"
    and idx: "idx \<in> set (sphere_cell segs (of_nat r) (of_nat sg))"
  shows "unat idx < (R + 1) * (unat segs + 1)"
proof -
  let ?S = "unat segs"
  define c :: uint32 where "c = of_nat r * (segs + 1) + of_nat sg"
  have s1: "unat (segs + 1) \<le> ?S + 1"
    using unat_add_le [of segs 1] by simp
  have "unat (of_nat r * (segs + 1) :: uint32) \<le> unat (of_nat r :: uint32) * unat (segs + 1)"
    by (rule unat_mult_le)
  also have "\<dots> \<le> r * (?S + 1)"
    by (rule mult_le_mono [OF unat_of_nat_le32 s1])
  finally have m: "unat (of_nat r * (segs + 1) :: uint32) \<le> r * (?S + 1)" .
  have c: "unat c \<le> r * (?S + 1) + sg"
    unfolding c_def
    using unat_add_le [of "of_nat r * (segs + 1)" "of_nat sg"] m unat_of_nat_le32 [of sg]
    by linarith
  have c1: "unat (c + 1) \<le> unat c + 1" using unat_add_le [of c 1] by simp
  have cs: "unat (c + segs) \<le> unat c + ?S" by (rule unat_add_le)
  have cs1: "unat (c + segs + 1) \<le> unat c + ?S + 1"
    using unat_add_le [of "c + segs" 1] cs by simp
  have cs2: "unat (c + segs + 1 + 1) \<le> unat c + ?S + 2"
    using unat_add_le [of "c + segs + 1" 1] cs1 by simp
  from idx have "idx = c \<or> idx = c + segs + 1 \<or> idx = c + 1 \<or> idx = c + segs + 1 + 1"
    by (auto simp: sphere_cell_def Let_def c_def)
  then have "unat idx \<le> unat c + ?S + 2"
    using c1 cs1 cs2 by (elim disjE) simp_all
  then have "unat idx \<le> r * (?S + 1) + sg + ?S + 2" using c by linarith
  also have "\<dots> \<le> (r + 1) * (?S + 1) + ?S" using sg by simp
  also have "\<dots> \<le> R * (?S + 1) + ?S"
  proof -
    have "r + 1 \<le> R" using r by simp
    then have "(r + 1) * (?S + 1) \<le> R * (?S + 1)" by (rule mult_le_mono1)
    then show ?thesis by simp
  qed
  also have "\<dots> < (R + 1) * (?S + 1)" by simp
  finally show ?thesis .
qed

text \<open>
  Below \<open>2^32 - 1\<close>. For every radius and colour and all \<open>segments\<close> and \<open>rings\<close> below
  \<open>2^32 - 1\<close> (in particular from 1 on), the loops of \<open>createSphere\<close> end with exactly
  \<open>(rings + 1) * (segments + 1)\<close> vertices and \<open>6 * segments * rings\<close> indices, and every
  index is below \<open>(rings + 1) * (segments + 1)\<close>. The counts are natural numbers; an index
  is a \<open>uint32_t\<close>, and one that wrapped around is below the count all the more. Lists are
  unbounded here: the lemma says nothing on the memory such a mesh takes.
\<close>

lemma createSphere_size:
  assumes "unat segs < 4294967295" and "unat rings < 4294967295"
  shows "\<exists>m. createSphere radius segs rings color = Some m \<and>
           length (m_vertices m) = (unat rings + 1) * (unat segs + 1) \<and>
           length (m_indices m) = 6 * unat segs * unat rings \<and>
           (\<forall>i \<in> set (m_indices m). unat i < (unat rings + 1) * (unat segs + 1))"
proof -
  from createSphere_closed [OF assms, of radius color]
  obtain m where m: "createSphere radius segs rings color = Some m"
    and V: "length (m_vertices m) = (unat rings + 1) * (unat segs + 1)"
    and I: "m_indices m = concat (map (\<lambda>ring. concat (map (sphere_cell segs ring)
                                  (map of_nat [0..<unat segs])))
                        (map of_nat [0..<unat rings]))"
    by (auto split: option.splits)
  have "length (concat (map (sphere_cell segs ring) (map of_nat [0..<unat segs]))) = 6 * unat segs"
    for ring
    using length_concat_const [of "map of_nat [0..<unat segs]" "sphere_cell segs ring" 6]
    by (simp add: sphere_cell_def Let_def)
  then have L: "length (m_indices m) = 6 * unat segs * unat rings"
    unfolding I
    using length_concat_const [of "map of_nat [0..<unat rings]"
        "\<lambda>ring. concat (map (sphere_cell segs ring) (map of_nat [0..<unat segs]))" "6 * unat segs"]
    by simp
  have B: "unat i < (unat rings + 1) * (unat segs + 1)" if "i \<in> set (m_indices m)" for i
  proof -
    from that obtain r sg where "r < unat rings" "sg < unat segs"
      "i \<in> set (sphere_cell segs (of_nat r) (of_nat sg))"
      unfolding I by auto
    then show ?thesis by (rule sphere_cell_bound)
  qed
  show ?thesis using m V L B by blast
qed

lemma createSphere_size_example:
  "\<exists>m. createSphere 1 2 2 (vec3 1 1 1) = Some m \<and>
        length (m_vertices m) = 9 \<and> length (m_indices m) = 24 \<and>
        list_all (\<lambda>i. unat i < 9) (m_indices m)"
  using createSphere_size [of 2 2 1 "vec3 1 1 1"]
  by (simp add: list_all_iff)

text \<open>
  C4. \<open>createSphere\<close> is documented to return the generated sphere mesh, and its size
  is specified for every \<open>segments \<ge> 1\<close> and \<open>rings \<ge> 1\<close>. With \<open>segments = 2^32 - 1\<close> or
  \<open>rings = 2^32 - 1\<close>, for every radius, colour and other count, it returns no mesh: the
  vertex loops test \<open>ring <= rings\<close> and \<open>segment <= segments\<close> on \<open>uint32_t\<close> counters
  (the index loops test \<open><\<close>), the condition cannot fail, and vertices are appended until
  an allocation fails.
\<close>

theorem createSphere_counter_wraps:
  "createSphere radius 4294967295 rings color = None \<and>
   createSphere radius segs 4294967295 color = None"
proof
  have "for_le 0 rings (\<lambda>ring vs. for_le 0 4294967295 (body ring) vs) [] = None"
    for body :: "uint32 \<Rightarrow> uint32 \<Rightarrow> Vertex list \<Rightarrow> Vertex list option"
    by (subst for_le.simps) (simp add: for_le_diverges)
  then show "createSphere radius 4294967295 rings color = None"
    by (simp add: createSphere_def Let_def)
next
  show "createSphere radius segs 4294967295 color = None"
    by (simp add: createSphere_def for_le_diverges)
qed

section \<open>The cylinder\<close>

lemma createCylinder_closed:
  assumes "unat segs < 4294967295"
  shows "case createCylinder radius h segs color of None \<Rightarrow> False
         | Some m \<Rightarrow>
             m_vertices m = cylinder_vertices radius h segs color \<and>
             m_indices m = cylinder_indices segs"
proof -
  have ring: "for_le 0 1 (\<lambda>i vs. for_le 0 segs (\<lambda>seg vs. Some (vs @ [g i seg])) vs) []
      = Some (map (g 0) (map of_nat [0..<Suc (unat segs)]) @ map (g 1) (map of_nat [0..<Suc (unat segs)]))"
    for g :: "uint32 \<Rightarrow> uint32 \<Rightarrow> Vertex"
    using assms
    by (subst for_le_0_1 [where f = "\<lambda>i vs. vs @ map (g i) (map of_nat [0..<Suc (unat segs)])"])
       (simp_all add: for_le_push comp_def del: upt_Suc)
  show ?thesis
    unfolding createCylinder_def using assms
    apply (simp add: Let_def ring for_le_push for_le_push_ext for_lt_push cylinder_indices_def
        cylinder_vertices_def to_float_def
        length_concat comp_def sum_list_triv del: upt_Suc)
    apply (simp add: ac_simps)
    done
qed

lemma cylinder_vertices_length: "length (cylinder_vertices radius h segs color) = 4 * unat segs + 6"
  by (simp add: cylinder_vertices_def Let_def)

lemma cylinder_indices_length: "length (cylinder_indices segs) = 12 * unat segs"
  by (simp add: cylinder_indices_def Let_def length_concat comp_def sum_list_triv)

lemma cylinder_indices_bound:
  assumes "idx \<in> set (cylinder_indices segs)"
  shows "unat idx < 4 * unat segs + 6"
proof -
  let ?S = "unat segs"
  define T :: uint32 where "T = of_nat (2 * (unat segs + 1))"
  define B :: uint32 where "B = of_nat (3 * unat segs + 4)"
  have T: "unat T \<le> 2 * ?S + 2" unfolding T_def using unat_of_nat_le32 [of "2 * (?S + 1)"] by simp
  have B: "unat B \<le> 3 * ?S + 4" unfolding B_def by (rule unat_of_nat_le32)
  have ci: "cylinder_indices segs =
       concat (map (\<lambda>seg. [seg, seg + 1, seg + segs + 1, seg + segs + 1, seg + 1, seg + segs + 1 + 1])
                     (map of_nat [0..<unat segs]))
       @ concat (map (\<lambda>seg. [T, T + 1 + seg + 1, T + 1 + seg]) (map of_nat [0..<unat segs]))
       @ concat (map (\<lambda>seg. [B, B + 1 + seg, B + 1 + seg + 1]) (map of_nat [0..<unat segs]))"
    by (simp only: cylinder_indices_def Let_def T_def B_def)
  from assms consider
      (side) "idx \<in> set (concat (map (\<lambda>seg. [seg, seg + 1, seg + segs + 1, seg + segs + 1, seg + 1, seg + segs + 1 + 1])
                     (map of_nat [0..<unat segs])))"
    | (top) "idx \<in> set (concat (map (\<lambda>seg. [T, T + 1 + seg + 1, T + 1 + seg]) (map of_nat [0..<unat segs])))"
    | (bottom) "idx \<in> set (concat (map (\<lambda>seg. [B, B + 1 + seg, B + 1 + seg + 1]) (map of_nat [0..<unat segs])))"
    unfolding ci by (simp only: set_append Un_iff) blast
  then show ?thesis
  proof cases
    case side
    then obtain k where k: "k < ?S"
      and "idx \<in> set [of_nat k, of_nat k + 1, of_nat k + segs + 1, of_nat k + segs + 1, of_nat k + 1, of_nat k + segs + 1 + 1]"
      by (rule concat_map_upt_elem)
    then have "idx = of_nat k \<or> idx = of_nat k + 1 \<or> idx = of_nat k + segs + 1
        \<or> idx = of_nat k + segs + 1 + 1"
      by (simp only: list.set insert_iff empty_iff) blast
    moreover have "unat (of_nat k :: uint32) \<le> k" by (rule unat_of_nat_le32)
    moreover have "unat (of_nat k + 1 :: uint32) \<le> k + 1"
      using unat_add_le [of "of_nat k" 1] unat_of_nat_le32 [of k] by simp
    moreover have "unat (of_nat k + segs + 1 :: uint32) \<le> k + ?S + 1"
      using unat_add3_le [of "of_nat k" segs 1] unat_of_nat_le32 [of k] by simp
    moreover have "unat (of_nat k + segs + 1 + 1 :: uint32) \<le> k + ?S + 2"
      using unat_add4_le [of "of_nat k" segs 1 1] unat_of_nat_le32 [of k] by simp
    ultimately show ?thesis using k by (elim disjE) simp_all
  next
    case top
    then obtain k where k: "k < ?S"
      and "idx \<in> set [T, T + 1 + of_nat k + 1, T + 1 + of_nat k]"
      by (rule concat_map_upt_elem)
    then have "idx = T \<or> idx = T + 1 + of_nat k + 1 \<or> idx = T + 1 + of_nat k"
      by (simp only: list.set insert_iff empty_iff) blast
    moreover have "unat (T + 1 + of_nat k + 1) \<le> unat T + k + 2"
      using unat_add4_le [of T 1 "of_nat k" 1] unat_of_nat_le32 [of k] by simp
    moreover have "unat (T + 1 + of_nat k) \<le> unat T + k + 1"
      using unat_add3_le [of T 1 "of_nat k"] unat_of_nat_le32 [of k] by simp
    ultimately show ?thesis using k T by (elim disjE) simp_all
  next
    case bottom
    then obtain k where k: "k < ?S"
      and "idx \<in> set [B, B + 1 + of_nat k, B + 1 + of_nat k + 1]"
      by (rule concat_map_upt_elem)
    then have "idx = B \<or> idx = B + 1 + of_nat k + 1 \<or> idx = B + 1 + of_nat k"
      by (simp only: list.set insert_iff empty_iff) blast
    moreover have "unat (B + 1 + of_nat k + 1) \<le> unat B + k + 2"
      using unat_add4_le [of B 1 "of_nat k" 1] unat_of_nat_le32 [of k] by simp
    moreover have "unat (B + 1 + of_nat k) \<le> unat B + k + 1"
      using unat_add3_le [of B 1 "of_nat k"] unat_of_nat_le32 [of k] by simp
    ultimately show ?thesis using k B by (elim disjE) simp_all
  qed
qed

lemma createCylinder_diverges: "createCylinder radius h 4294967295 color = None"
proof -
  have "for_le 0 1 (\<lambda>i vs. for_le 0 4294967295 (body i) vs) [] = None"
    for body :: "uint32 \<Rightarrow> uint32 \<Rightarrow> Vertex list \<Rightarrow> Vertex list option"
    by (subst for_le.simps) (simp add: for_le_diverges)
  then show ?thesis
    by (simp add: createCylinder_def Let_def)
qed

lemma createCylinder_Some:
  assumes "createCylinder radius h segs color = Some m"
  shows "unat segs < 4294967295 \<and> m_vertices m = cylinder_vertices radius h segs color \<and>
         m_indices m = cylinder_indices segs"
proof -
  have "segs \<noteq> 4294967295" using assms createCylinder_diverges by auto
  have "unat segs \<noteq> 4294967295"
  proof
    assume a: "unat segs = 4294967295"
    have "segs = of_nat (unat segs)" by simp
    also have "\<dots> = 4294967295" unfolding a by simp
    finally show False using \<open>segs \<noteq> 4294967295\<close> by simp
  qed
  moreover have "unat segs < 4294967296" using unsigned_less [of segs] by simp
  ultimately have s: "unat segs < 4294967295" by linarith
  from createCylinder_closed [OF s, of radius h color] assms s show ?thesis by simp
qed

lemma createCylinder_returns:
  "unat segs < 4294967295 \<Longrightarrow> \<exists>m. createCylinder radius h segs color = Some m"
  using createCylinder_closed [of segs radius h color] by (auto split: option.splits)

lemma createCylinder_valid:
  assumes "createCylinder radius h segs color = Some m"
  shows "mesh_valid m"
  using createCylinder_Some [OF assms] cylinder_indices_bound [of _ segs]
  by (simp add: mesh_valid_def cylinder_vertices_length)

lemma cylinder_vertices_first:
  "v_position (cylinder_vertices radius h segs color ! 0) = vec3 radius (- (h * (5/10))) 0"
  by (simp add: cylinder_vertices_def Let_def nth_append upt_conv_Cons side_vertex_def to_float_def
      del: upt_Suc)

lemma cylinder_vertices_top:
  "v_position (cylinder_vertices radius h segs color ! Suc (Suc (2 * unat segs))) = vec3 0 (h * (5/10)) 0"
  by (simp add: cylinder_vertices_def Let_def nth_append)

section \<open>The cactus\<close>

lemma generateArm_Some:
  assumes "generateArm G c attachHeight angle armLength = Some arm"
  shows "\<exists>hor ver f g.
           createCylinder (trunkRadius (m_config c) * (6/10) * m_growthFactor c)
             (armLength * (5/10)) (segments (m_config c)) (c_color (m_config c)) = Some hor \<and>
           createCylinder (trunkRadius (m_config c) * (6/10) * m_growthFactor c)
             (armLength * (6/10)) (segments (m_config c)) (c_color (m_config c)) = Some ver \<and>
           m_vertices arm = map f (m_vertices hor) @ map g (m_vertices ver) \<and>
           m_indices arm = m_indices hor
              @ map (\<lambda>idx. idx + of_nat (length (m_vertices hor))) (m_indices ver)"
  using assms
  by (auto simp: generateArm_def Let_def bind_eq_Some_conv)

lemma generateArm_valid:
  assumes "generateArm G c attachHeight angle armLength = Some arm"
  shows "mesh_valid arm \<and> length (m_vertices arm) = 2 * (4 * unat (segments (m_config c)) + 6)"
proof -
  from generateArm_Some [OF assms] obtain hor ver f g where
    h: "createCylinder (trunkRadius (m_config c) * (6/10) * m_growthFactor c)
             (armLength * (5/10)) (segments (m_config c)) (c_color (m_config c)) = Some hor"
    and v: "createCylinder (trunkRadius (m_config c) * (6/10) * m_growthFactor c)
             (armLength * (6/10)) (segments (m_config c)) (c_color (m_config c)) = Some ver"
    and V: "m_vertices arm = map f (m_vertices hor) @ map g (m_vertices ver)"
    and I: "m_indices arm = m_indices hor
              @ map (\<lambda>idx. idx + of_nat (length (m_vertices hor))) (m_indices ver)"
    by blast
  have hv: "indices_valid (map f (m_vertices hor)) (m_indices hor)"
    using createCylinder_valid [OF h] by (simp add: mesh_valid_def indices_valid_def)
  have vv: "indices_valid (map g (m_vertices ver)) (m_indices ver)"
    using createCylinder_valid [OF v] by (simp add: mesh_valid_def indices_valid_def)
  have "mesh_valid arm"
    using indices_valid_rebase [OF hv vv] by (simp add: mesh_valid_iff V I)
  moreover have "length (m_vertices arm) = 2 * (4 * unat (segments (m_config c)) + 6)"
    using createCylinder_Some [OF h] createCylinder_Some [OF v]
    by (simp add: V cylinder_vertices_length)
  ultimately show ?thesis by blast
qed

lemma generateArm_returns:
  assumes "unat (segments (m_config c)) < 4294967295"
  shows "\<exists>arm. generateArm G c attachHeight angle armLength = Some arm"
proof -
  obtain hor where h: "createCylinder (trunkRadius (m_config c) * (6/10) * m_growthFactor c)
             (armLength * (5/10)) (segments (m_config c)) (c_color (m_config c)) = Some hor"
    using createCylinder_returns [OF assms] by blast
  obtain ver where v: "createCylinder (trunkRadius (m_config c) * (6/10) * m_growthFactor c)
             (armLength * (6/10)) (segments (m_config c)) (c_color (m_config c)) = Some ver"
    using createCylinder_returns [OF assms] by blast
  show ?thesis using h v by (simp add: generateArm_def Let_def)
qed

lemma generateMesh_arms_closed:
  assumes "generateMesh_arms G c H i acc = Some acc'"
  shows "\<exists>arms. length arms = nat (numArms (m_config c) - i) \<and>
           acc' = foldl append_rebased acc arms \<and>
           (\<forall>k < length arms. arm_at G c H (i + int k) = Some (arms ! k))"
  using assms
proof (induction G c H i acc rule: generateMesh_arms.induct)
  case (1 G c H i allVertices allIndices)
  show ?case
  proof (cases "i < numArms (m_config c)")
    case False
    with "1.prems" show ?thesis
      by (subst (asm) generateMesh_arms.simps) simp
  next
    case True
    from "1.prems" True obtain arm where
      arm: "arm_at G c H i = Some arm"
      and rest: "generateMesh_arms G c H (i + 1)
              (allVertices @ m_vertices arm,
               allIndices @ map (\<lambda>idx. idx + of_nat (length allVertices)) (m_indices arm))
            = Some acc'"
      by (subst (asm) generateMesh_arms.simps)
         (auto simp: Let_def arm_at_def split: option.splits)
    from "1.IH" [OF True refl refl refl refl _ refl rest] arm
    obtain arms where
      n: "length arms = nat (numArms (m_config c) - (i + 1))"
      and a: "acc' = foldl append_rebased
               (allVertices @ m_vertices arm,
                allIndices @ map (\<lambda>idx. idx + of_nat (length allVertices)) (m_indices arm)) arms"
      and k: "\<forall>k < length arms. arm_at G c H (i + 1 + int k) = Some (arms ! k)"
      by (auto simp: arm_at_def)
    have "length (arm # arms) = nat (numArms (m_config c) - i)" using n True by simp
    moreover have "acc' = foldl append_rebased (allVertices, allIndices) (arm # arms)"
      using a by (simp add: append_rebased_def)
    moreover have "\<forall>k < length (arm # arms). arm_at G c H (i + int k) = Some ((arm # arms) ! k)"
    proof (intro allI impI)
      fix k assume "k < length (arm # arms)"
      then show "arm_at G c H (i + int k) = Some ((arm # arms) ! k)"
        using arm k by (cases k) (simp_all add: algebra_simps)
    qed
    ultimately show ?thesis by blast
  qed
qed

lemma generateMesh_arms_returns:
  assumes "unat (segments (m_config c)) < 4294967295"
  shows "\<exists>acc'. generateMesh_arms G c H i acc = Some acc'"
  using assms
proof (induction G c H i acc rule: generateMesh_arms.induct)
  case (1 G c H i allVertices allIndices)
  show ?case
  proof (cases "i < numArms (m_config c)")
    case False
    then show ?thesis by (subst generateMesh_arms.simps) simp
  next
    case True
    have "\<exists>arm. arm_at G c H i = Some arm"
      unfolding arm_at_def by (rule generateArm_returns [OF "1.prems"])
    then obtain arm where arm: "arm_at G c H i = Some arm" ..
    from "1.IH" [OF True refl refl refl refl _ refl "1.prems"] arm
    have "\<exists>acc'. generateMesh_arms G c H (i + 1)
              (allVertices @ m_vertices arm,
               allIndices @ map (\<lambda>idx. idx + of_nat (length allVertices)) (m_indices arm))
            = Some acc'"
      by (simp add: arm_at_def)
    then show ?thesis
      using True arm by (subst generateMesh_arms.simps) (simp add: Let_def arm_at_def)
  qed
qed

lemma generateMesh_Some:
  assumes "generateMesh G c = Some m"
  shows "\<exists>trunk arms.
           trunk_of c = Some trunk \<and>
           length arms = nat (numArms (m_config c)) \<and>
           (\<forall>k < length arms.
              arm_at G c (height (m_config c) * m_growthFactor c) (int k) = Some (arms ! k)) \<and>
           (m_vertices m, m_indices m) =
             foldl append_rebased
               (map (trunk_vertex (m_config c) (height (m_config c) * m_growthFactor c))
                    (m_vertices trunk),
                m_indices trunk) arms"
proof -
  from assms obtain trunk acc' where
    t: "trunk_of c = Some trunk"
    and a: "generateMesh_arms G c (height (m_config c) * m_growthFactor c) 0
              (map (trunk_vertex (m_config c) (height (m_config c) * m_growthFactor c))
                   (m_vertices trunk), m_indices trunk) = Some acc'"
    and m: "m = Mesh_new (fst acc') (snd acc')"
    by (auto simp: generateMesh_def trunk_of_def Let_def bind_eq_Some_conv split: prod.splits)
  from generateMesh_arms_closed [OF a] obtain arms where
    "length arms = nat (numArms (m_config c))"
    "acc' = foldl append_rebased
               (map (trunk_vertex (m_config c) (height (m_config c) * m_growthFactor c))
                    (m_vertices trunk), m_indices trunk) arms"
    "\<forall>k < length arms.
        arm_at G c (height (m_config c) * m_growthFactor c) (int k) = Some (arms ! k)"
    by auto
  with t m show ?thesis by (intro exI [of _ trunk] exI [of _ arms]) simp
qed

lemma generateMesh_returns:
  assumes "unat (segments (m_config c)) < 4294967295"
  shows "\<exists>m. generateMesh G c = Some m"
proof -
  obtain trunk where t: "trunk_of c = Some trunk"
    using createCylinder_returns [OF assms] unfolding trunk_of_def by blast
  obtain acc' where "generateMesh_arms G c (height (m_config c) * m_growthFactor c) 0
              (map (trunk_vertex (m_config c) (height (m_config c) * m_growthFactor c))
                   (m_vertices trunk), m_indices trunk) = Some acc'"
    using generateMesh_arms_returns [OF assms] by blast
  then show ?thesis
    using t by (cases acc') (simp add: generateMesh_def trunk_of_def Let_def)
qed

lemma generateMesh_vertex_count:
  assumes "generateMesh G c = Some m"
  shows "length (m_vertices m)
         = (4 * unat (segments (m_config c)) + 6) * (1 + 2 * nat (numArms (m_config c)))"
proof -
  from generateMesh_Some [OF assms] obtain trunk arms where
    t: "trunk_of c = Some trunk"
    and n: "length arms = nat (numArms (m_config c))"
    and k: "\<forall>k < length arms.
              arm_at G c (height (m_config c) * m_growthFactor c) (int k) = Some (arms ! k)"
    and f: "(m_vertices m, m_indices m) =
             foldl append_rebased
               (map (trunk_vertex (m_config c) (height (m_config c) * m_growthFactor c))
                    (m_vertices trunk),
                m_indices trunk) arms"
    by blast
  have al: "\<forall>arm \<in> set arms. length (m_vertices arm) = 2 * (4 * unat (segments (m_config c)) + 6)"
  proof
    fix arm assume "arm \<in> set arms"
    then obtain j where "j < length arms" "arms ! j = arm" by (auto simp: in_set_conv_nth)
    with k have "arm_at G c (height (m_config c) * m_growthFactor c) (int j) = Some arm" by auto
    then show "length (m_vertices arm) = 2 * (4 * unat (segments (m_config c)) + 6)"
      unfolding arm_at_def using generateArm_valid by blast
  qed
  have tl: "length (m_vertices trunk) = 4 * unat (segments (m_config c)) + 6"
    using createCylinder_Some [OF t [unfolded trunk_of_def]] by (simp add: cylinder_vertices_length)
  have "m_vertices m = fst (foldl append_rebased
               (map (trunk_vertex (m_config c) (height (m_config c) * m_growthFactor c))
                    (m_vertices trunk),
                m_indices trunk) arms)"
    using f [symmetric] by simp
  then show ?thesis
    using foldl_append_rebased_length [OF al, of "(map (trunk_vertex (m_config c) (height (m_config c) * m_growthFactor c))
                    (m_vertices trunk), m_indices trunk)"] tl n
    by (simp add: algebra_simps)
qed

text \<open>
  C5. For every configuration (any \<open>numArms\<close>, negative ones give no arm) and any growth
  factor, every index of the mesh that \<open>generateMesh\<close> returns is below that mesh's vertex
  count, and the mesh is the trunk followed by the \<open>numArms\<close> arms in order, each appended
  with its indices moved up by the combined vertex count at that moment
  (\<open>append_rebased\<close>). \<open>generateMesh\<close> returns whenever \<open>segments\<close> is below
  \<open>2^32 - 1\<close>.
\<close>

theorem generateMesh_indices_valid:
  "(unat (segments (m_config c)) < 4294967295 \<longrightarrow> (\<exists>m. generateMesh G c = Some m)) \<and>
   (generateMesh G c = Some m \<longrightarrow>
      (\<forall>idx \<in> set (m_indices m). unat idx < length (m_vertices m)) \<and>
      (\<exists>trunk arms.
         trunk_of c = Some trunk \<and>
         length arms = nat (numArms (m_config c)) \<and>
         (\<forall>k < length arms.
            arm_at G c (height (m_config c) * m_growthFactor c) (int k) = Some (arms ! k)) \<and>
         (m_vertices m, m_indices m) =
           foldl append_rebased
             (map (trunk_vertex (m_config c) (height (m_config c) * m_growthFactor c))
                  (m_vertices trunk),
              m_indices trunk) arms))"
proof (intro conjI impI)
  assume "unat (segments (m_config c)) < 4294967295"
  then show "\<exists>m. generateMesh G c = Some m" by (rule generateMesh_returns)
next
  assume m: "generateMesh G c = Some m"
  from generateMesh_Some [OF m] obtain trunk arms where
    t: "trunk_of c = Some trunk"
    and n: "length arms = nat (numArms (m_config c))"
    and k: "\<forall>k < length arms.
              arm_at G c (height (m_config c) * m_growthFactor c) (int k) = Some (arms ! k)"
    and f: "(m_vertices m, m_indices m) =
             foldl append_rebased
               (map (trunk_vertex (m_config c) (height (m_config c) * m_growthFactor c))
                    (m_vertices trunk),
                m_indices trunk) arms"
    by blast
  from t n k f show "\<exists>trunk arms.
         trunk_of c = Some trunk \<and>
         length arms = nat (numArms (m_config c)) \<and>
         (\<forall>k < length arms.
            arm_at G c (height (m_config c) * m_growthFactor c) (int k) = Some (arms ! k)) \<and>
         (m_vertices m, m_indices m) =
           foldl append_rebased
             (map (trunk_vertex (m_config c) (height (m_config c) * m_growthFactor c))
                  (m_vertices trunk),
              m_indices trunk) arms"
    by blast
  have tv: "indices_valid
      (fst (map (trunk_vertex (m_config c) (height (m_config c) * m_growthFactor c)) (m_vertices trunk),
            m_indices trunk))
      (snd (map (trunk_vertex (m_config c) (height (m_config c) * m_growthFactor c)) (m_vertices trunk),
            m_indices trunk))"
    using createCylinder_valid [OF t [unfolded trunk_of_def]]
    by (simp add: mesh_valid_def indices_valid_def)
  have av: "\<forall>arm \<in> set arms. mesh_valid arm"
  proof
    fix arm assume "arm \<in> set arms"
    then obtain j where "j < length arms" "arms ! j = arm" by (auto simp: in_set_conv_nth)
    with k have "arm_at G c (height (m_config c) * m_growthFactor c) (int j) = Some arm" by auto
    then show "mesh_valid arm" unfolding arm_at_def using generateArm_valid by blast
  qed
  have "indices_valid (m_vertices m) (m_indices m)"
    using foldl_append_rebased_valid [OF tv av] f [symmetric] by simp
  then show "\<forall>idx \<in> set (m_indices m). unat idx < length (m_vertices m)"
    by (simp add: indices_valid_def)
qed

theorem generateMesh_indices_valid_witness:
  "\<exists>m. generateMesh G0 (Cactus_new Config_default) = Some m \<and>
       list_all (\<lambda>idx. unat idx < length (m_vertices m)) (m_indices m) \<and>
       length (m_vertices m) = 270"
proof -
  have s: "unat (segments (m_config (Cactus_new Config_default))) < 4294967295"
    by (simp add: Cactus_new_def Config_default_def)
  from generateMesh_returns [OF s, of G0]
  obtain m where m: "generateMesh G0 (Cactus_new Config_default) = Some m" ..
  from generateMesh_indices_valid [of "Cactus_new Config_default" G0 m]
    generateMesh_vertex_count [OF m] m
  show ?thesis by (simp add: list_all_iff Cactus_new_def Config_default_def)
qed

text \<open>
  C9. \<open>setGrowthFactor f\<close> stores \<open>f\<close> as it is, for every \<open>f\<close>, and changes nothing
  else; the mesh \<open>generateMesh\<close> then returns is scaled by \<open>f\<close>: its first vertex, on
  the bottom side ring, lies \<open>trunkRadius * f\<close> from the axis, and the centre of the top cap
  lies \<open>height * f\<close> above the base. (The example takes \<open>f = 10\<close>, outside [0.1, 4.0],
  where \<open>grow\<close> stops at 4.)
\<close>

theorem setGrowthFactor_unclamped:
  assumes "1 \<le> unat (segments (m_config c))" and "unat (segments (m_config c)) < 4294967295"
  shows "getGrowthFactor (setGrowthFactor f c) = f \<and>
         m_config (setGrowthFactor f c) = m_config c \<and>
         m_isBurning (setGrowthFactor f c) = m_isBurning c \<and>
         (\<exists>m. generateMesh G (setGrowthFactor f c) = Some m \<and>
            v_position (m_vertices m ! 0)
              = add3 (vec3 (trunkRadius (m_config c) * f) 0 0) (c_position (m_config c)) \<and>
            v_position (m_vertices m ! (2 * unat (segments (m_config c)) + 2))
              = add3 (vec3 0 (height (m_config c) * f) 0) (c_position (m_config c)))"
proof -
  let ?c = "setGrowthFactor f c"
  let ?S = "unat (segments (m_config c))"
  have cfg: "m_config ?c = m_config c" and gf: "m_growthFactor ?c = f"
    by (simp_all add: setGrowthFactor_def)
  have s: "unat (segments (m_config ?c)) < 4294967295" using assms(2) by (simp add: cfg)
  from generateMesh_returns [OF s, of G] obtain m where m: "generateMesh G ?c = Some m" ..
  from generateMesh_Some [OF m] obtain trunk arms where
    t: "trunk_of ?c = Some trunk"
    and f: "(m_vertices m, m_indices m) =
             foldl append_rebased
               (map (trunk_vertex (m_config ?c) (height (m_config ?c) * m_growthFactor ?c))
                    (m_vertices trunk),
                m_indices trunk) arms"
    by blast
  have tv: "m_vertices trunk = cylinder_vertices (trunkRadius (m_config c) * f)
              (height (m_config c) * f) (segments (m_config c)) (c_color (m_config c))"
    using createCylinder_Some [OF t [unfolded trunk_of_def]] by (simp add: cfg gf)
  have mv: "m_vertices m = map (trunk_vertex (m_config c) (height (m_config c) * f)) (m_vertices trunk)
              @ concat (map m_vertices arms)"
    using f [symmetric] foldl_append_rebased_fst [of "(map (trunk_vertex (m_config c) (height (m_config c) * f)) (m_vertices trunk), m_indices trunk)" arms]
    by (simp add: cfg gf)
  have len: "length (m_vertices trunk) = 4 * ?S + 6"
    by (simp add: tv cylinder_vertices_length)
  have v0: "v_position (m_vertices m ! 0)
      = add3 (vec3 (trunkRadius (m_config c) * f) 0 0) (c_position (m_config c))"
    using len by (simp add: mv nth_append tv cylinder_vertices_first trunk_vertex_def Let_def)
  have v1: "v_position (m_vertices m ! (2 * ?S + 2))
      = add3 (vec3 0 (height (m_config c) * f) 0) (c_position (m_config c))"
    using len by (simp add: mv nth_append tv cylinder_vertices_top trunk_vertex_def Let_def mult.commute)
  show ?thesis
    using m v0 v1 by (simp add: getGrowthFactor_def setGrowthFactor_def)
qed

theorem setGrowthFactor_unclamped_witness:
  "1 \<le> unat (segments (m_config (Cactus_new Config_default))) \<and>
   unat (segments (m_config (Cactus_new Config_default))) < 4294967295 \<and>
   getGrowthFactor (setGrowthFactor 10 (Cactus_new Config_default)) = 10 \<and>
   \<not> getGrowthFactor (setGrowthFactor 10 (Cactus_new Config_default)) \<le> 4 \<and>
   getGrowthFactor (grow 9 (Cactus_new Config_default)) = 4 \<and>
   (\<exists>m. generateMesh G0 (setGrowthFactor 10 (Cactus_new Config_default)) = Some m \<and>
      v_position (m_vertices m ! 0) = vec3 5 0 0 \<and>
      v_position (m_vertices m ! 26) = vec3 0 50 0)"
  using setGrowthFactor_unclamped [of "Cactus_new Config_default" 10 G0]
  by (simp add: Cactus_new_def Config_default_def getGrowthFactor_def grow_def clamp_def)

section \<open>Errors\<close>

text \<open>
  C8, as amended. When every slot of the pool is alive, \<open>emitParticle\<close> returns and
  leaves the whole system as it is (every particle, the accumulator, the clock, the active
  flag and the random engine), and the emission loop of \<open>update\<close>, which calls it once
  for each emission due, changes the accumulator only: nothing records the dropped
  emissions. Not every operation is free of errors: \<open>init\<close> with a negative
  \<open>maxParticles\<close> throws \<open>std::length_error\<close>.
\<close>

theorem pool_exhaustion_dropped:
  "((\<forall>p \<in> set (particles s). isAlive p) \<longrightarrow>
      emitParticle s = s \<and>
      update_emit s = s\<lparr>emissionAccumulator := drain (emissionAccumulator s)\<rparr>) \<and>
   (maxParticles cfg < 0 \<longrightarrow> init cfg s = Inl length_error)"
proof (intro conjI impI)
  assume a: "\<forall>p \<in> set (particles s). isAlive p"
  then show "emitParticle s = s" by (simp add: emitParticle_full)
  from a show "update_emit s = s\<lparr>emissionAccumulator := drain (emissionAccumulator s)\<rparr>"
    by (simp add: update_emit_full)
next
  assume "maxParticles cfg < 0"
  then show "init cfg s = Inl length_error"
    by (simp add: init_def init_pool_def Let_def)
qed

theorem pool_exhaustion_dropped_witness:
  "list_all isAlive (particles (one_alive\<lparr>emissionAccumulator := 5/2\<rparr>)) \<and>
   emitParticle (one_alive\<lparr>emissionAccumulator := 5/2\<rparr>)
     = one_alive\<lparr>emissionAccumulator := 5/2\<rparr> \<and>
   update_emit (one_alive\<lparr>emissionAccumulator := 5/2\<rparr>)
     = one_alive\<lparr>emissionAccumulator := 1/2\<rparr> \<and>
   maxParticles (EmitterConfig_default\<lparr>maxParticles := -5\<rparr>) < 0 \<and>
   init (EmitterConfig_default\<lparr>maxParticles := -5\<rparr>)
     (one_alive\<lparr>emissionAccumulator := 5/2\<rparr>) = Inl length_error"
  using pool_exhaustion_dropped [of "one_alive\<lparr>emissionAccumulator := 5/2\<rparr>"
          "EmitterConfig_default\<lparr>maxParticles := -5\<rparr>"]
  by (simp add: one_alive_def ParticleSystem_new_def Particle_zero_def isAlive_def
      EmitterConfig_default_def drain_def)

text \<open>C8 as stated fails: \<open>init\<close> with a negative capacity throws.\<close>

theorem init_negative_capacity_counterexample:
  "init (EmitterConfig_default\<lparr>maxParticles := -1\<rparr>) (ParticleSystem_new (sconst 0)) = Inl length_error"
  by (simp add: init_def init_pool_def EmitterConfig_default_def)

end
